theory Spec2Isabelle
  imports Complex_Main
begin

section \<open>Pooled resources (lib/PooledResource.ts)\<close>

text \<open>
  Modelled from the spec: the enumeration \<open>PooledResourceStateEnum\<close> is imported by
  \<open>PooledResource.ts\<close> and \<open>Pool.ts\<close> but its declaration is not among the sources.
  The specification lists its five members.
\<close>

datatype PooledResourceStateEnum = IDLE | ALLOCATED | VALIDATION | RETURNING | INVALID

text \<open>
  The class \<open>PooledResource<T>\<close>. Timestamps are the integers returned by
  \<open>Date.now()\<close>; a \<open>number | null\<close> field is an \<open>int option\<close>. Every method that
  reads the clock takes the value read as its argument \<open>now\<close>.
\<close>

record 'r PooledResource =
  creationTime :: int
  lastReturnTime :: "int option"
  lastBorrowTime :: "int option"
  lastIdleTime :: "int option"
  obj :: 'r
  state :: PooledResourceStateEnum

definition new_PooledResource :: "'r \<Rightarrow> int \<Rightarrow> 'r PooledResource" where
  "new_PooledResource resource now =
     \<lparr> creationTime = now, lastReturnTime = None, lastBorrowTime = None,
       lastIdleTime = Some now, obj = resource, state = IDLE \<rparr>"

definition allocate :: "int \<Rightarrow> 'r PooledResource \<Rightarrow> 'r PooledResource" where
  "allocate now r = r\<lparr> lastBorrowTime := Some now, lastIdleTime := None, state := ALLOCATED \<rparr>"

definition deallocate :: "int \<Rightarrow> 'r PooledResource \<Rightarrow> 'r PooledResource" where
  "deallocate now r = r\<lparr> lastReturnTime := Some now, lastIdleTime := Some now, state := IDLE \<rparr>"

definition invalidate :: "'r PooledResource \<Rightarrow> 'r PooledResource" where
  "invalidate r = r\<lparr> state := INVALID \<rparr>"

definition test :: "'r PooledResource \<Rightarrow> 'r PooledResource" where
  "test r = r\<lparr> state := VALIDATION \<rparr>"

definition idle :: "int \<Rightarrow> 'r PooledResource \<Rightarrow> 'r PooledResource" where
  "idle now r = r\<lparr> lastIdleTime := Some now, state := IDLE \<rparr>"

definition returning :: "'r PooledResource \<Rightarrow> 'r PooledResource" where
  "returning r = r\<lparr> state := RETURNING \<rparr>"

text \<open>A sequence of lifecycle operations applied to a freshly constructed resource.\<close>

datatype lifecycle_call =
  Allocate int | Deallocate int | Idle int | Test | Returning | Invalidate

fun lifecycle_step :: "lifecycle_call \<Rightarrow> 'r PooledResource \<Rightarrow> 'r PooledResource" where
  "lifecycle_step (Allocate now) r = allocate now r"
| "lifecycle_step (Deallocate now) r = deallocate now r"
| "lifecycle_step (Idle now) r = idle now r"
| "lifecycle_step Test r = test r"
| "lifecycle_step Returning r = returning r"
| "lifecycle_step Invalidate r = invalidate r"

fun lifecycle_run :: "lifecycle_call list \<Rightarrow> 'r PooledResource \<Rightarrow> 'r PooledResource" where
  "lifecycle_run [] r = r"
| "lifecycle_run (c # cs) r = lifecycle_run cs (lifecycle_step c r)"

definition idle_time_agrees :: "'r PooledResource \<Rightarrow> bool" where
  "idle_time_agrees r \<longleftrightarrow> ((lastIdleTime r \<noteq> None) = (state r = IDLE))"

section \<open>Numbers, errors and timers of the host\<close>

text \<open>
  A JavaScript \<open>number\<close> is modelled as a rational or \<open>NaN\<close>; the two infinities and
  the rounding of doubles are left out. \<open>Math.floor\<close> keeps \<open>NaN\<close>; \<open>ToInt32\<close> is the
  coercion performed by \<open>x | 0\<close>: truncate towards zero, reduce modulo \<open>2^32\<close> and read
  the result as a signed 32-bit integer (\<open>NaN\<close> becomes \<open>0\<close>).
\<close>

datatype jsnumber = NaN | Num rat

fun Math_floor :: "jsnumber \<Rightarrow> int option" where
  "Math_floor NaN = None"
| "Math_floor (Num q) = Some \<lfloor>q\<rfloor>"

definition trunc :: "rat \<Rightarrow> int" where
  "trunc q = (if 0 \<le> q then \<lfloor>q\<rfloor> else - \<lfloor>- q\<rfloor>)"

definition wrap32 :: "int \<Rightarrow> int" where
  "wrap32 n = (let m = n mod 4294967296 in if 2147483648 \<le> m then m - 4294967296 else m)"

fun ToInt32 :: "jsnumber \<Rightarrow> int" where
  "ToInt32 NaN = 0"
| "ToInt32 (Num q) = wrap32 (trunc q)"

fun truthy :: "jsnumber \<Rightarrow> bool" where
  "truthy NaN = False"
| "truthy (Num q) = (q \<noteq> 0)"

text \<open>
  Modelled from the spec: the module \<open>errors\<close> with the class \<open>TimeoutError\<close> is imported
  by \<open>ResourceRequest.ts\<close> but is not among the sources; the specification names the
  error kind. The other constructors are the built-in \<open>Error\<close> and \<open>TypeError\<close>, each
  with its message.
\<close>

datatype error = Error string | TypeError string | TimeoutError string

text \<open>
  The host's timers. \<open>setTimeout\<close> returns a fresh handle and records the callback
  and the delay; \<open>clearTimeout\<close> removes the entry. A callback is named by what it
  does when it fires.
\<close>

datatype callback = FireTimeout nat | EvictorRun | DestroyTimedOut nat

record timers =
  next_handle :: nat
  armed :: "(nat \<times> callback \<times> int) list"

definition js_setTimeout :: "callback \<Rightarrow> int \<Rightarrow> timers \<Rightarrow> nat \<times> timers" where
  "js_setTimeout cb ms tm =
     (next_handle tm,
      \<lparr> next_handle = Suc (next_handle tm), armed = armed tm @ [(next_handle tm, cb, ms)] \<rparr>)"

definition js_clearTimeout :: "nat \<Rightarrow> timers \<Rightarrow> timers" where
  "js_clearTimeout h tm = tm\<lparr> armed := filter (\<lambda>t. fst t \<noteq> h) (armed tm) \<rparr>"

section \<open>Deferred and ResourceRequest\<close>

text \<open>
  \<open>Deferred<T>\<close> holds its state and its promise; the promise is modelled by its
  settlement. \<open>ResourceRequest<T>\<close> extends it with the creation timestamp and the
  handle of its timer. The identity of a request object (needed by the timer callback,
  which closes over \<open>this\<close>) is passed as \<open>self\<close>.
\<close>

datatype DeferredState = PENDING | FULFILLED | REJECTED

datatype 'v settlement = Unsettled | Resolved 'v | Failed error

record 'v Deferred =
  deferred_state :: DeferredState
  promise :: "'v settlement"

definition new_Deferred :: "'v Deferred" where
  "new_Deferred = \<lparr> deferred_state = PENDING, promise = Unsettled \<rparr>"

definition Deferred_reject :: "error \<Rightarrow> ('v, 'x) Deferred_scheme \<Rightarrow> ('v, 'x) Deferred_scheme" where
  "Deferred_reject reason d =
     (if deferred_state d \<noteq> PENDING then d
      else d\<lparr> deferred_state := REJECTED, promise := Failed reason \<rparr>)"

definition Deferred_resolve :: "'v \<Rightarrow> ('v, 'x) Deferred_scheme \<Rightarrow> ('v, 'x) Deferred_scheme" where
  "Deferred_resolve v d =
     (if deferred_state d \<noteq> PENDING then d
      else d\<lparr> deferred_state := FULFILLED, promise := Resolved v \<rparr>)"

record 'v ResourceRequest = "'v Deferred" +
  creationTimestamp :: int
  timerRef :: "nat option"

definition clearTimeout :: "'v ResourceRequest \<times> timers \<Rightarrow> 'v ResourceRequest \<times> timers" where
  "clearTimeout rt =
     (case rt of (req, tm) \<Rightarrow>
        (req\<lparr> timerRef := None \<rparr>,
         case timerRef req of None \<Rightarrow> tm | Some h \<Rightarrow> js_clearTimeout h tm))"

definition setTimeout ::
  "nat \<Rightarrow> jsnumber \<Rightarrow> int \<Rightarrow> 'v ResourceRequest \<times> timers \<Rightarrow>
   error + 'v ResourceRequest \<times> timers" where
  "setTimeout self delay now rt =
     (case rt of (req, tm) \<Rightarrow>
        if deferred_state req \<noteq> PENDING then Inr (req, tm)
        else
          (case Math_floor delay of
             None \<Rightarrow> Inl (Error ''Delay must be a positive integer.'')
           | Some ttl \<Rightarrow>
               if ttl \<le> 0 then Inl (Error ''Delay must be a positive integer.'')
               else
                 (let age = now - creationTimestamp req;
                      rt1 = (if timerRef req \<noteq> None then clearTimeout (req, tm) else (req, tm));
                      ht = js_setTimeout (FireTimeout self) (max (ttl - age) 0) (snd rt1)
                  in Inr ((fst rt1)\<lparr> timerRef := Some (fst ht) \<rparr>, snd ht))))"

definition new_ResourceRequest ::
  "nat \<Rightarrow> jsnumber option \<Rightarrow> int \<Rightarrow> timers \<Rightarrow> error + 'v ResourceRequest \<times> timers" where
  "new_ResourceRequest self timeoutMillis now tm =
     (let req = \<lparr> deferred_state = PENDING, promise = Unsettled,
                   creationTimestamp = now, timerRef = None \<rparr>
      in case timeoutMillis of
           None \<Rightarrow> Inr (req, tm)
         | Some d \<Rightarrow> setTimeout self d now (req, tm))"

definition ResourceRequest_reject ::
  "error \<Rightarrow> 'v ResourceRequest \<times> timers \<Rightarrow> 'v ResourceRequest \<times> timers" where
  "ResourceRequest_reject reason rt =
     (if deferred_state (fst rt) = PENDING
      then (case clearTimeout rt of (req, tm) \<Rightarrow> (Deferred_reject reason req, tm))
      else rt)"

definition ResourceRequest_resolve ::
  "'v \<Rightarrow> 'v ResourceRequest \<times> timers \<Rightarrow> 'v ResourceRequest \<times> timers" where
  "ResourceRequest_resolve v rt =
     (if deferred_state (fst rt) = PENDING
      then (case clearTimeout rt of (req, tm) \<Rightarrow> (Deferred_resolve v req, tm))
      else rt)"

definition fireTimeout :: "'v ResourceRequest \<times> timers \<Rightarrow> 'v ResourceRequest \<times> timers" where
  "fireTimeout rt =
     (if deferred_state (fst rt) = PENDING
      then ResourceRequest_reject (TimeoutError ''ResourceRequest timed out'') rt
      else rt)"

text \<open>Concrete requests and timers used to evaluate the definitions.\<close>

definition timers0 :: timers where
  "timers0 = \<lparr> next_handle = 1, armed = [] \<rparr>"

definition request0 :: "nat ResourceRequest" where
  "request0 = \<lparr> deferred_state = PENDING, promise = Unsettled,
                 creationTimestamp = 100, timerRef = None \<rparr>"

section \<open>Deque, Queue and PriorityQueue\<close>

text \<open>
  \<open>Deque<T>\<close> keeps its elements in a doubly-linked list. In the pool it is modelled
  by the sequence of the data of its nodes, read from the head to the tail; the nodes
  themselves are modelled further below, for the cursor. \<open>shift\<close> and \<open>pop\<close> return
  \<open>undefined\<close> (\<open>None\<close>) on an empty deque.
\<close>

definition Deque_shift :: "'a list \<Rightarrow> 'a option \<times> 'a list" where
  "Deque_shift d = (case d of [] \<Rightarrow> (None, []) | x # xs \<Rightarrow> (Some x, xs))"

definition Deque_unshift :: "'a list \<Rightarrow> 'a \<Rightarrow> 'a list" where
  "Deque_unshift d element = element # d"

definition Deque_push :: "'a list \<Rightarrow> 'a \<Rightarrow> 'a list" where
  "Deque_push d element = d @ [element]"

definition Deque_pop :: "'a list \<Rightarrow> 'a option \<times> 'a list" where
  "Deque_pop d = (if d = [] then (None, []) else (Some (last d), butlast d))"

text \<open>
  \<open>Deque\<close> declares \<open>shift\<close>, \<open>unshift\<close>, \<open>push\<close>, \<open>pop\<close>, the three iterator
  factories, \<open>head\<close>, \<open>tail\<close>, \<open>length\<close> and \<open>getInternalList\<close>, and nothing else.
  The pool calls \<open>this._availableObjects.remove(resource)\<close> in two places; the member
  does not exist, so the call raises a \<open>TypeError\<close> and the deque is not changed.
\<close>

definition Deque_remove :: "'a list \<Rightarrow> 'a \<Rightarrow> error + 'a list" where
  "Deque_remove d element = Inl (TypeError ''this._availableObjects.remove is not a function'')"

text \<open>
  \<open>Queue<T>\<close> extends \<open>Deque<T>\<close> and overrides \<open>push\<close>. The override first evaluates
  \<open>this._createTimeoutRejectionHandler(node, internalList)\<close> as the argument of
  \<open>promise.catch\<close>. Neither \<open>Queue\<close> nor \<open>Deque\<close> declares that member (the comment
  that closes the class says it has been inlined), so the call raises a \<open>TypeError\<close>
  before the list is touched. The statements behind it would insert the request with
  \<open>internalList.insertEnd(node.data)\<close> and once more with \<open>super.push\<close>.
\<close>

definition createTimeoutRejectionHandler :: "error + unit" where
  "createTimeoutRejectionHandler =
     Inl (TypeError ''this._createTimeoutRejectionHandler is not a function'')"

definition Queue_push :: "'a list \<Rightarrow> 'a \<Rightarrow> error + 'a list" where
  "Queue_push q resourceRequest =
     (case createTimeoutRejectionHandler of
        Inl e \<Rightarrow> Inl e
      | Inr handler \<Rightarrow> Inr (Deque_push (q @ [resourceRequest]) resourceRequest))"

text \<open>
  \<open>PriorityQueue<T>\<close>: \<open>_size\<close> and the array \<open>_slots\<close> of queues. The expression
  \<open>(priority && +priority | 0) || 0\<close> yields \<open>0\<close> for an omitted or falsy priority and
  the 32-bit coercion of the priority otherwise.
\<close>

record 'a PriorityQueue =
  pq_size :: int
  slots :: "'a list list"

definition new_PriorityQueue :: "jsnumber \<Rightarrow> 'a PriorityQueue" where
  "new_PriorityQueue sz =
     (let n = max (ToInt32 sz) 1 in \<lparr> pq_size = n, slots = replicate (nat n) [] \<rparr>)"

definition pq_length :: "'a PriorityQueue \<Rightarrow> int" where
  "pq_length pq = int (sum_list (map length (slots pq)))"

definition resolvedPriority :: "int \<Rightarrow> jsnumber option \<Rightarrow> int" where
  "resolvedPriority sz priority =
     (let r = (case priority of
                 None \<Rightarrow> 0
               | Some p \<Rightarrow> if truthy p then ToInt32 p else 0)
      in if r < 0 \<or> r \<ge> sz then sz - 1 else r)"

definition enqueue :: "'a \<Rightarrow> jsnumber option \<Rightarrow> 'a PriorityQueue \<Rightarrow> error + 'a PriorityQueue" where
  "enqueue item priority pq =
     (let r = resolvedPriority (pq_size pq) priority
      in if r < 0 \<or> int (length (slots pq)) \<le> r
         then Inl (TypeError ''Cannot read properties of undefined (reading push)'')
         else (case Queue_push (slots pq ! nat r) item of
                 Inl e \<Rightarrow> Inl e
               | Inr s \<Rightarrow> Inr (pq\<lparr> slots := (slots pq)[nat r := s] \<rparr>)))"

fun dequeue_slots :: "'a list list \<Rightarrow> 'a option \<times> 'a list list" where
  "dequeue_slots [] = (None, [])"
| "dequeue_slots (s # ss) =
     (if length s > 0 then (fst (Deque_shift s), snd (Deque_shift s) # ss)
      else (fst (dequeue_slots ss), s # snd (dequeue_slots ss)))"

definition dequeue :: "'a PriorityQueue \<Rightarrow> 'a option \<times> 'a PriorityQueue" where
  "dequeue pq = (fst (dequeue_slots (slots pq)), pq\<lparr> slots := snd (dequeue_slots (slots pq)) \<rparr>)"

section \<open>Pool options (PoolDefaults, PoolOptions)\<close>

text \<open>
  \<open>IPoolOptionsParams\<close> is what the caller passes, every member optional.
  \<open>PoolOptions\<close> is what the constructor makes of it with the defaults of
  \<open>PoolDefaults\<close>. Counts and intervals are taken to be integers; the two options that
  the code coerces (\<open>priorityRange\<close>, \<open>acquireTimeoutMillis\<close>) are numbers. The option
  \<open>Promise\<close> is left out.
\<close>

record IPoolOptionsParams =
  opt_fifo :: "bool option"
  opt_priorityRange :: "jsnumber option"
  opt_testOnBorrow :: "bool option"
  opt_testOnReturn :: "bool option"
  opt_autostart :: "bool option"
  opt_acquireTimeoutMillis :: "jsnumber option"
  opt_destroyTimeoutMillis :: "int option"
  opt_maxWaitingClients :: "int option"
  opt_min :: "int option"
  opt_max :: "int option"
  opt_evictionRunIntervalMillis :: "int option"
  opt_numTestsPerEvictionRun :: "int option"
  opt_softIdleTimeoutMillis :: "int option"
  opt_idleTimeoutMillis :: "int option"

record PoolOptions =
  fifo :: bool
  priorityRange :: jsnumber
  testOnBorrow :: bool
  testOnReturn :: bool
  autostart :: bool
  acquireTimeoutMillis :: "jsnumber option"
  destroyTimeoutMillis :: "int option"
  maxWaitingClients :: "int option"
  min_opt :: int
  max_opt :: int
  evictionRunIntervalMillis :: int
  numTestsPerEvictionRun :: int
  softIdleTimeoutMillis :: int
  idleTimeoutMillis :: int

definition or_default :: "'a option \<Rightarrow> 'a \<Rightarrow> 'a" where
  "or_default v d = (case v of None \<Rightarrow> d | Some x \<Rightarrow> x)"

definition new_PoolOptions :: "IPoolOptionsParams \<Rightarrow> PoolOptions" where
  "new_PoolOptions opts =
     (let mx = (case opt_max opts of Some m \<Rightarrow> max m 1 | None \<Rightarrow> 1);
          mn = (case opt_min opts of Some m \<Rightarrow> min (max m 0) mx | None \<Rightarrow> 0)
      in \<lparr> fifo = or_default (opt_fifo opts) True,
           priorityRange = or_default (opt_priorityRange opts) (Num 1),
           testOnBorrow = or_default (opt_testOnBorrow opts) False,
           testOnReturn = or_default (opt_testOnReturn opts) False,
           autostart = or_default (opt_autostart opts) True,
           acquireTimeoutMillis = opt_acquireTimeoutMillis opts,
           destroyTimeoutMillis = opt_destroyTimeoutMillis opts,
           maxWaitingClients = opt_maxWaitingClients opts,
           min_opt = (if mn > mx then mx else mn),
           max_opt = mx,
           evictionRunIntervalMillis = or_default (opt_evictionRunIntervalMillis opts) 0,
           numTestsPerEvictionRun = or_default (opt_numTestsPerEvictionRun opts) 3,
           softIdleTimeoutMillis = or_default (opt_softIdleTimeoutMillis opts) (- 1),
           idleTimeoutMillis = or_default (opt_idleTimeoutMillis opts) 30000 \<rparr>)"

definition no_options :: IPoolOptionsParams where
  "no_options =
     \<lparr> opt_fifo = None, opt_priorityRange = None, opt_testOnBorrow = None,
       opt_testOnReturn = None, opt_autostart = None, opt_acquireTimeoutMillis = None,
       opt_destroyTimeoutMillis = None, opt_maxWaitingClients = None, opt_min = None,
       opt_max = None, opt_evictionRunIntervalMillis = None,
       opt_numTestsPerEvictionRun = None, opt_softIdleTimeoutMillis = None,
       opt_idleTimeoutMillis = None \<rparr>"

section \<open>The pool (lib/Pool.ts)\<close>

text \<open>
  \<open>ResourceLoan<T>\<close> extends \<open>Deferred<void>\<close> with the pooled resource it lends.
  Objects that the pool shares by reference (pooled resources, requests) live in a
  store and are named by their address, a natural number taken from \<open>next_ref\<close>.
\<close>

record ResourceLoan = "unit Deferred" +
  pooledResource :: nat
  loan_creationTimestamp :: int

definition new_ResourceLoan :: "nat \<Rightarrow> int \<Rightarrow> ResourceLoan" where
  "new_ResourceLoan pr now =
     \<lparr> deferred_state = PENDING, promise = Unsettled,
       pooledResource = pr, loan_creationTimestamp = now \<rparr>"

text \<open>
  A tracked factory operation is a promise in one of the pool's sets. A create
  operation is the promise \<open>Promise.resolve(factory.create()).then(cb)\<close>, where \<open>cb\<close>
  registers the new resource; \<open>_trackOperation\<close> removes the promise from the set in a
  reaction of that promise, that is, in a later job than the one that ran \<open>cb\<close>. The
  status tells whether the promise has settled. A validation carries the resource its
  continuation closes over.
\<close>

datatype op_status = OpPending | OpSettled

datatype validation_kind = OnBorrow | OnReturn

record 'r Pool =
  config :: PoolOptions
  draining :: bool
  started :: bool
  waitingClientsQueue :: "nat PriorityQueue"
  factoryCreateOperations :: "(nat \<times> op_status) list"
  factoryDestroyOperations :: "nat list"
  availableObjects :: "nat list"
  testOnBorrowResources :: "nat list"
  validationOperations :: "(nat \<times> validation_kind \<times> nat) list"
  allObjects :: "nat list"
  resourceLoans :: "'r \<rightharpoonup> ResourceLoan"
  scheduledEviction :: "nat option"
  store_resources :: "nat \<rightharpoonup> 'r PooledResource"
  store_requests :: "nat \<rightharpoonup> 'r ResourceRequest"
  host_timers :: timers
  next_ref :: nat
  destroy_calls :: "'r list"

text \<open>What a public method hands back: a promise, a rejected promise, or an exception.\<close>

datatype 'a outcome = Returns 'a | Rejects error | Throws error

definition on_pooled :: "nat \<Rightarrow> ('r PooledResource \<Rightarrow> 'r PooledResource) \<Rightarrow> 'r Pool \<Rightarrow> 'r Pool" where
  "on_pooled pr f p =
     p\<lparr> store_resources := (store_resources p)(pr := map_option f (store_resources p pr)) \<rparr>"

definition count :: "'r Pool \<Rightarrow> int" where
  "count p = int (length (allObjects p)) + int (length (factoryCreateOperations p))"

definition spareResourceCapacity :: "'r Pool \<Rightarrow> int" where
  "spareResourceCapacity p =
     max_opt (config p) - (int (length (allObjects p)) + int (length (factoryCreateOperations p)))"

definition potentiallyAllocableResourceCount :: "'r Pool \<Rightarrow> int" where
  "potentiallyAllocableResourceCount p =
     int (length (availableObjects p)) + int (length (testOnBorrowResources p))
       + int (length (factoryCreateOperations p))"

text \<open>\<open>_createResource\<close>: call the factory and track the promise.\<close>

definition createResource :: "'r Pool \<Rightarrow> 'r Pool" where
  "createResource p =
     p\<lparr> factoryCreateOperations := factoryCreateOperations p @ [(next_ref p, OpPending)],
        next_ref := Suc (next_ref p) \<rparr>"

definition ensureMinimum :: "'r Pool \<Rightarrow> 'r Pool" where
  "ensureMinimum p =
     (if draining p \<or> \<not> started p then p
      else (let minShortfall = min_opt (config p) - count p
            in (createResource ^^ nat minShortfall) p))"

definition addPooledResourceToAvailableObjects :: "int \<Rightarrow> nat \<Rightarrow> 'r Pool \<Rightarrow> 'r Pool" where
  "addPooledResourceToAvailableObjects now pr p =
     (let p1 = on_pooled pr (idle now) p
      in if fifo (config p1)
         then p1\<lparr> availableObjects := Deque_push (availableObjects p1) pr \<rparr>
         else p1\<lparr> availableObjects := Deque_unshift (availableObjects p1) pr \<rparr>)"

text \<open>
  \<open>_destroy\<close> (here \<open>destroyPooled\<close>): invalidate, forget, call \<open>factory.destroy\<close>,
  track its promise (racing a timer when \<open>destroyTimeoutMillis\<close> is truthy), and
  re-establish the minimum.
\<close>

definition call_factory_destroy :: "nat \<Rightarrow> 'r Pool \<Rightarrow> 'r Pool" where
  "call_factory_destroy pr p =
     (case store_resources p pr of
        None \<Rightarrow> p
      | Some r \<Rightarrow> p\<lparr> destroy_calls := destroy_calls p @ [obj r] \<rparr>)"

definition track_destroy :: "'r Pool \<Rightarrow> 'r Pool" where
  "track_destroy p =
     (let op = next_ref p;
          p1 = p\<lparr> factoryDestroyOperations := factoryDestroyOperations p @ [op],
                  next_ref := Suc op \<rparr>
      in case destroyTimeoutMillis (config p1) of
           None \<Rightarrow> p1
         | Some ms \<Rightarrow>
             if ms = 0 then p1
             else p1\<lparr> host_timers := snd (js_setTimeout (DestroyTimedOut op) ms (host_timers p1)) \<rparr>)"

definition destroyPooled :: "nat \<Rightarrow> 'r Pool \<Rightarrow> 'r Pool" where
  "destroyPooled pr p =
     (let p1 = on_pooled pr invalidate p;
          p2 = p1\<lparr> allObjects := removeAll pr (allObjects p1) \<rparr>;
          p3 = track_destroy (call_factory_destroy pr p2)
      in ensureMinimum p3)"

text \<open>\<open>_dispatchPooledResourceToNextWaitingClient\<close>.\<close>

definition dispatchPooledResourceToNextWaitingClient ::
  "int \<Rightarrow> nat \<Rightarrow> 'r Pool \<Rightarrow> bool \<times> 'r Pool" where
  "dispatchPooledResourceToNextWaitingClient now pr p =
     (let dq = dequeue (waitingClientsQueue p);
          p1 = p\<lparr> waitingClientsQueue := snd dq \<rparr>
      in case fst dq of
           None \<Rightarrow> (False, addPooledResourceToAvailableObjects now pr p1)
         | Some rq \<Rightarrow>
             (case (store_requests p1 rq, store_resources p1 pr) of
                (Some req, Some r) \<Rightarrow>
                  if deferred_state req \<noteq> PENDING
                  then (False, addPooledResourceToAvailableObjects now pr p1)
                  else
                    (let loan = new_ResourceLoan pr now;
                         p2 = p1\<lparr> resourceLoans := (resourceLoans p1)(obj r \<mapsto> loan) \<rparr>;
                         p3 = on_pooled pr (allocate now) p2;
                         rt = ResourceRequest_resolve (obj r) (req, host_timers p3)
                     in (True, p3\<lparr> store_requests := (store_requests p3)(rq \<mapsto> fst rt),
                                   host_timers := snd rt \<rparr>))
              | _ \<Rightarrow> (False, addPooledResourceToAvailableObjects now pr p1)))"

definition dispatchResource :: "int \<Rightarrow> 'r Pool \<Rightarrow> 'r Pool" where
  "dispatchResource now p =
     (if length (availableObjects p) < 1 then p
      else (case Deque_shift (availableObjects p) of
              (Some pr, rest) \<Rightarrow>
                snd (dispatchPooledResourceToNextWaitingClient now pr (p\<lparr> availableObjects := rest \<rparr>))
            | (None, rest) \<Rightarrow> p))"

text \<open>\<open>_testOnBorrow\<close> (here \<open>run_testOnBorrow\<close>): move the head of the cache into validation.\<close>

definition run_testOnBorrow :: "'r Pool \<Rightarrow> 'r Pool" where
  "run_testOnBorrow p =
     (if length (availableObjects p) < 1 then p
      else (case Deque_shift (availableObjects p) of
              (Some pr, rest) \<Rightarrow>
                (let p1 = on_pooled pr test (p\<lparr> availableObjects := rest \<rparr>);
                     p2 = p1\<lparr> testOnBorrowResources := List.insert pr (testOnBorrowResources p1) \<rparr>
                 in p2\<lparr> validationOperations :=
                           validationOperations p2 @ [(next_ref p2, OnBorrow, pr)],
                         next_ref := Suc (next_ref p2) \<rparr>)
            | (None, rest) \<Rightarrow> p))"

definition dispense :: "int \<Rightarrow> 'r Pool \<Rightarrow> 'r Pool" where
  "dispense now p =
     (let numWaitingClients = pq_length (waitingClientsQueue p)
      in if numWaitingClients < 1 then p
         else
           (let resourceShortfall = numWaitingClients - potentiallyAllocableResourceCount p;
                actualNumberOfResourcesToCreate = min (spareResourceCapacity p) resourceShortfall;
                p1 = (createResource ^^ nat actualNumberOfResourcesToCreate) p
            in if testOnBorrow (config p1)
               then
                 (let desired = numWaitingClients - int (length (testOnBorrowResources p1));
                      actual = min (int (length (availableObjects p1))) desired
                  in (run_testOnBorrow ^^ nat actual) p1)
               else
                 (let actual = min (int (length (availableObjects p1))) numWaitingClients
                  in (dispatchResource now ^^ nat actual) p1)))"

text \<open>The evictor's timer and \<open>start\<close>.\<close>

definition scheduleEvictorRun :: "'r Pool \<Rightarrow> 'r Pool" where
  "scheduleEvictorRun p =
     (if evictionRunIntervalMillis (config p) > 0 \<and> started p
      then (let ht = js_setTimeout EvictorRun (evictionRunIntervalMillis (config p)) (host_timers p)
            in p\<lparr> scheduledEviction := Some (fst ht), host_timers := snd ht \<rparr>)
      else p)"

definition descheduleEvictorRun :: "'r Pool \<Rightarrow> 'r Pool" where
  "descheduleEvictorRun p =
     (case scheduledEviction p of
        None \<Rightarrow> p\<lparr> scheduledEviction := None \<rparr>
      | Some h \<Rightarrow> p\<lparr> host_timers := js_clearTimeout h (host_timers p), scheduledEviction := None \<rparr>)"

definition start :: "'r Pool \<Rightarrow> 'r Pool" where
  "start p =
     (if draining p \<or> started p then p
      else ensureMinimum (scheduleEvictorRun (p\<lparr> started := True \<rparr>)))"

text \<open>
  \<open>acquire\<close> is split at its own seams: \<open>acquire_enqueue\<close> is the tail that builds the
  request, enqueues it and dispenses; \<open>acquire_checked\<close> is everything after the first
  statement (the draining test, the capacity test, the tail); \<open>acquire\<close> runs the first
  statement and continues with \<open>acquire_checked\<close>. A request is returned by its address.
\<close>

definition acquire_enqueue :: "jsnumber option \<Rightarrow> int \<Rightarrow> 'r Pool \<Rightarrow> nat outcome \<times> 'r Pool" where
  "acquire_enqueue priority now p =
     (let self = next_ref p
      in case new_ResourceRequest self (acquireTimeoutMillis (config p)) now (host_timers p) of
           Inl e \<Rightarrow> (Throws e, p)
         | Inr rt \<Rightarrow>
             (let p1 = p\<lparr> store_requests := (store_requests p)(self \<mapsto> fst rt),
                           host_timers := snd rt, next_ref := Suc self \<rparr>
              in case enqueue self priority (waitingClientsQueue p1) of
                   Inl e \<Rightarrow> (Throws e, p1)
                 | Inr wq \<Rightarrow> (Returns self, dispense now (p1\<lparr> waitingClientsQueue := wq \<rparr>))))"

definition queue_full :: "'r Pool \<Rightarrow> bool" where
  "queue_full p \<longleftrightarrow>
     spareResourceCapacity p < 1 \<and> int (length (availableObjects p)) < 1
     \<and> (case maxWaitingClients (config p) of
          None \<Rightarrow> False
        | Some m \<Rightarrow> pq_length (waitingClientsQueue p) \<ge> m)"

definition acquire_checked :: "jsnumber option \<Rightarrow> int \<Rightarrow> 'r Pool \<Rightarrow> nat outcome \<times> 'r Pool" where
  "acquire_checked priority now p =
     (if draining p then (Rejects (Error ''pool is draining and cannot accept work''), p)
      else if queue_full p then (Rejects (Error ''max waitingClients count exceeded''), p)
      else acquire_enqueue priority now p)"

definition acquire :: "jsnumber option \<Rightarrow> int \<Rightarrow> 'r Pool \<Rightarrow> nat outcome \<times> 'r Pool" where
  "acquire priority now p =
     acquire_checked priority now
       (if \<not> started p \<and> \<not> autostart (config p) then start p else p)"

text \<open>
  \<open>release\<close> and \<open>destroy\<close>. The loan is removed from the map and resolved; with
  \<open>testOnReturn\<close> the validation promise is tracked and its continuation runs later.
\<close>

definition release :: "'r \<Rightarrow> int \<Rightarrow> 'r Pool \<Rightarrow> unit outcome \<times> 'r Pool" where
  "release resource now p =
     (case resourceLoans p resource of
        None \<Rightarrow> (Rejects (Error ''Resource not currently part of this pool or not borrowed''), p)
      | Some loan \<Rightarrow>
          (let p1 = p\<lparr> resourceLoans := (resourceLoans p)(resource := None) \<rparr>;
               pr = pooledResource loan;
               p2 = on_pooled pr (deallocate now) p1
           in if testOnReturn (config p2)
              then
                (let p3 = on_pooled pr test p2
                 in (Returns (),
                     p3\<lparr> validationOperations :=
                           validationOperations p3 @ [(next_ref p3, OnReturn, pr)],
                         next_ref := Suc (next_ref p3) \<rparr>))
              else (Returns (), dispense now (addPooledResourceToAvailableObjects now pr p2))))"

definition destroy :: "'r \<Rightarrow> int \<Rightarrow> 'r Pool \<Rightarrow> unit outcome \<times> 'r Pool" where
  "destroy resource now p =
     (case resourceLoans p resource of
        None \<Rightarrow> (Rejects (Error ''Resource not currently part of this pool or not borrowed''), p)
      | Some loan \<Rightarrow>
          (let p1 = p\<lparr> resourceLoans := (resourceLoans p)(resource := None) \<rparr>
           in (Returns (), dispense now (destroyPooled (pooledResource loan) p1))))"

definition drain :: "'r Pool \<Rightarrow> 'r Pool" where
  "drain p = descheduleEvictorRun (p\<lparr> draining := True \<rparr>)"

text \<open>
  \<open>clear\<close>. The method itself only collects the create operations that are tracked at
  the call. Its first continuation, \<open>clear_settled\<close>, runs once they have all settled
  and been removed from the set: it copies the cache (the spread is read as draining a
  fresh cursor), and for each copied entry calls \<open>this._availableObjects.remove\<close> and
  then \<open>factory.destroy\<close>; after the loop it empties \<open>_allObjects\<close>. An exception
  rejects the chain, so that the last continuation, \<open>clear_finished\<close>
  (\<open>_ensureMinimum\<close>), only runs after a normal end.
\<close>

fun clear_forEach :: "nat list \<Rightarrow> 'r Pool \<Rightarrow> error + 'r Pool" where
  "clear_forEach [] p = Inr p"
| "clear_forEach (pr # rest) p =
     (case Deque_remove (availableObjects p) pr of
        Inl e \<Rightarrow> Inl e
      | Inr d \<Rightarrow> clear_forEach rest (call_factory_destroy pr (p\<lparr> availableObjects := d \<rparr>)))"

definition clear_settled :: "'r Pool \<Rightarrow> error + 'r Pool" where
  "clear_settled p =
     (let availableCopy = availableObjects p
      in case clear_forEach availableCopy p of
           Inl e \<Rightarrow> Inl e
         | Inr p1 \<Rightarrow> Inr (p1\<lparr> allObjects := [] \<rparr>))"

definition clear_finished :: "'r Pool \<Rightarrow> 'r Pool" where
  "clear_finished p = ensureMinimum p"

definition clear_ready :: "nat list \<Rightarrow> 'r Pool \<Rightarrow> bool" where
  "clear_ready snapshot p \<longleftrightarrow> list_all (\<lambda>op. op \<notin> fst ` set (factoryCreateOperations p)) snapshot"

text \<open>
  \<open>clear\<close> run to its end from a state in which the tracked create operations have
  settled: the state it leaves and how its promise settles.
\<close>

definition clear :: "'r Pool \<Rightarrow> unit outcome \<times> 'r Pool" where
  "clear p =
     (case clear_settled p of
        Inl e \<Rightarrow> (Rejects e, p)
      | Inr p1 \<Rightarrow> (Returns (), clear_finished p1))"

text \<open>The constructor and \<open>createPool\<close>.\<close>

definition new_Pool :: "IPoolOptionsParams \<Rightarrow> 'r Pool" where
  "new_Pool opts =
     (let cfg = new_PoolOptions opts;
          p = \<lparr> config = cfg, draining = False, started = False,
                waitingClientsQueue = new_PriorityQueue (priorityRange cfg),
                factoryCreateOperations = [], factoryDestroyOperations = [],
                availableObjects = [], testOnBorrowResources = [], validationOperations = [],
                allObjects = [], resourceLoans = Map.empty, scheduledEviction = None,
                store_resources = Map.empty, store_requests = Map.empty,
                host_timers = \<lparr> next_handle = 1, armed = [] \<rparr>, next_ref = 0,
                destroy_calls = [] \<rparr>
      in if autostart cfg then start p else p)"

definition createPool :: "IPoolOptionsParams \<Rightarrow> 'r Pool" where
  "createPool cfg = new_Pool cfg"

section \<open>Continuations and the runs of a pool\<close>

text \<open>
  Between two public calls the host runs the pool's callbacks: promise reactions and
  timers. Each callback is a function on the pool state, guarded by what must hold for
  the host to run it; where the guard fails the function returns the state as it is.

  A create operation goes through three jobs: \<open>createFulfilled\<close> is the reaction
  \<open>cb\<close> of \<open>_createResource\<close> (the factory's promise fulfilled with a resource);
  \<open>createUntracked\<close> is the reaction of \<open>_trackOperation\<close> that deletes the promise
  from \<open>_factoryCreateOperations\<close>; after it \<open>_dispense\<close> runs in a job of its own
  (\<open>dispense\<close>). \<open>createRejected\<close> is the factory's promise rejected.
\<close>

definition createFulfilled :: "nat \<Rightarrow> 'r \<Rightarrow> int \<Rightarrow> 'r Pool \<Rightarrow> 'r Pool" where
  "createFulfilled op resource now p =
     (if (op, OpPending) \<in> set (factoryCreateOperations p)
      then
        (let pr = next_ref p;
             p1 = p\<lparr> store_resources := (store_resources p)(pr \<mapsto> new_PooledResource resource now),
                     next_ref := Suc pr \<rparr>;
             p2 = p1\<lparr> allObjects := List.insert pr (allObjects p1) \<rparr>;
             p3 = addPooledResourceToAvailableObjects now pr p2
         in p3\<lparr> factoryCreateOperations :=
                   map (\<lambda>e. if fst e = op then (op, OpSettled) else e) (factoryCreateOperations p3) \<rparr>)
      else p)"

definition createRejected :: "nat \<Rightarrow> 'r Pool \<Rightarrow> 'r Pool" where
  "createRejected op p =
     (if (op, OpPending) \<in> set (factoryCreateOperations p)
      then p\<lparr> factoryCreateOperations :=
                map (\<lambda>e. if fst e = op then (op, OpSettled) else e) (factoryCreateOperations p) \<rparr>
      else p)"

definition createUntracked :: "nat \<Rightarrow> 'r Pool \<Rightarrow> 'r Pool" where
  "createUntracked op p =
     (if (op, OpSettled) \<in> set (factoryCreateOperations p)
      then p\<lparr> factoryCreateOperations := filter (\<lambda>e. fst e \<noteq> op) (factoryCreateOperations p) \<rparr>
      else p)"

definition destroySettled :: "nat \<Rightarrow> 'r Pool \<Rightarrow> 'r Pool" where
  "destroySettled op p = p\<lparr> factoryDestroyOperations := removeAll op (factoryDestroyOperations p) \<rparr>"

text \<open>
  The continuations of a validation: the promise is removed from
  \<open>_validationOperations\<close> and the handler runs (the two reactions are taken together,
  nothing reads that set). \<open>borrowValidated\<close> and \<open>borrowValidationFailed\<close> are the
  \<open>then\<close> and the \<open>catch\<close> of \<open>_testOnBorrow\<close>, \<open>returnValidated\<close> and
  \<open>returnValidationFailed\<close> those of \<open>release\<close>.
\<close>

definition untrack_validation :: "nat \<Rightarrow> 'r Pool \<Rightarrow> 'r Pool" where
  "untrack_validation op p =
     p\<lparr> validationOperations := filter (\<lambda>e. fst e \<noteq> op) (validationOperations p) \<rparr>"

definition borrowValidated :: "nat \<Rightarrow> bool \<Rightarrow> int \<Rightarrow> 'r Pool \<Rightarrow> 'r Pool" where
  "borrowValidated op isValid now p =
     (case map_of (validationOperations p) op of
        Some (OnBorrow, pr) \<Rightarrow>
          (let p1 = untrack_validation op p;
               p2 = p1\<lparr> testOnBorrowResources := removeAll pr (testOnBorrowResources p1) \<rparr>
           in if \<not> isValid
              then dispense now (destroyPooled pr (on_pooled pr invalidate p2))
              else snd (dispatchPooledResourceToNextWaitingClient now pr p2))
      | _ \<Rightarrow> p)"

definition borrowValidationFailed :: "nat \<Rightarrow> int \<Rightarrow> 'r Pool \<Rightarrow> 'r Pool" where
  "borrowValidationFailed op now p =
     (case map_of (validationOperations p) op of
        Some (OnBorrow, pr) \<Rightarrow>
          (let p1 = untrack_validation op p;
               p2 = p1\<lparr> testOnBorrowResources := removeAll pr (testOnBorrowResources p1) \<rparr>
           in dispense now (destroyPooled pr p2))
      | _ \<Rightarrow> p)"

definition returnValidated :: "nat \<Rightarrow> bool \<Rightarrow> int \<Rightarrow> 'r Pool \<Rightarrow> 'r Pool" where
  "returnValidated op isValid now p =
     (case map_of (validationOperations p) op of
        Some (OnReturn, pr) \<Rightarrow>
          (let p1 = untrack_validation op p
           in if \<not> isValid
              then dispense now (destroyPooled pr p1)
              else dispense now (addPooledResourceToAvailableObjects now pr p1))
      | _ \<Rightarrow> p)"

definition returnValidationFailed :: "nat \<Rightarrow> int \<Rightarrow> 'r Pool \<Rightarrow> 'r Pool" where
  "returnValidationFailed op now p =
     (case map_of (validationOperations p) op of
        Some (OnReturn, pr) \<Rightarrow> dispense now (destroyPooled pr (untrack_validation op p))
      | _ \<Rightarrow> p)"

text \<open>
  The evictor (lib/DefaultEvictor.ts) and \<open>_evict\<close>. The walk of the eviction cursor
  is not part of the pool state modelled here; a run is summarised by the first
  resource of the cache, if any, for which the evictor answers true. For that
  resource \<open>_evict\<close> calls \<open>this._availableObjects.remove\<close> and then \<open>_destroy\<close>.
  The timer's callback reschedules the evictor after \<open>_evict\<close> has returned.
\<close>

definition DefaultEvictor_evict :: "PoolOptions \<Rightarrow> 'r PooledResource \<Rightarrow> int \<Rightarrow> int \<Rightarrow> bool" where
  "DefaultEvictor_evict cfg r availableObjectsCount now =
     (case lastIdleTime r of
        None \<Rightarrow> False
      | Some t \<Rightarrow>
          (let idleTime = now - t
           in if softIdleTimeoutMillis cfg > 0 \<and> softIdleTimeoutMillis cfg < idleTime
                 \<and> min_opt cfg < availableObjectsCount then True
              else if idleTimeoutMillis cfg > 0 \<and> idleTimeoutMillis cfg < idleTime then True
              else False))"

definition evict :: "nat option \<Rightarrow> int \<Rightarrow> 'r Pool \<Rightarrow> error + 'r Pool" where
  "evict victim now p =
     (case victim of
        None \<Rightarrow> Inr p
      | Some pr \<Rightarrow>
          (case store_resources p pr of
             None \<Rightarrow> Inr p
           | Some r \<Rightarrow>
               if pr \<in> set (availableObjects p)
                  \<and> DefaultEvictor_evict (config p) r (int (length (availableObjects p))) now
               then (case Deque_remove (availableObjects p) pr of
                       Inl e \<Rightarrow> Inl e
                     | Inr d \<Rightarrow> Inr (destroyPooled pr (p\<lparr> availableObjects := d \<rparr>)))
               else Inr p))"

definition evictor_callback :: "nat option \<Rightarrow> int \<Rightarrow> 'r Pool \<Rightarrow> 'r Pool" where
  "evictor_callback victim now p =
     (case evict victim now p of
        Inl e \<Rightarrow> p
      | Inr p1 \<Rightarrow> if started p1 then scheduleEvictorRun p1 else p1)"

definition timerFired :: "nat \<Rightarrow> nat option \<Rightarrow> int \<Rightarrow> 'r Pool \<Rightarrow> 'r Pool" where
  "timerFired h victim now p =
     (case map_of (armed (host_timers p)) h of
        None \<Rightarrow> p
      | Some cm \<Rightarrow>
          (let p1 = p\<lparr> host_timers := js_clearTimeout h (host_timers p) \<rparr>
           in case fst cm of
                FireTimeout q \<Rightarrow>
                  (case store_requests p1 q of
                     None \<Rightarrow> p1
                   | Some req \<Rightarrow>
                       (let rt = fireTimeout (req, host_timers p1)
                        in p1\<lparr> store_requests := (store_requests p1)(q \<mapsto> fst rt),
                               host_timers := snd rt \<rparr>))
              | EvictorRun \<Rightarrow> evictor_callback victim now p1
              | DestroyTimedOut op \<Rightarrow> destroySettled op p1))"

text \<open>
  An event is a public call or one of the callbacks above, with the values the host
  supplies (the clock, the factory's answer). \<open>use\<close> is \<open>acquire\<close> followed by
  \<open>release\<close> or \<open>destroy\<close>; the getters, \<open>isBorrowedResource\<close> and \<open>ready\<close> do not
  change the state.
\<close>

datatype 'r event =
    Start
  | Acquire "jsnumber option" int
  | Release 'r int
  | Destroy 'r int
  | Drain
  | ClearSettled "nat list"
  | ClearFinished
  | CreateFulfilled nat 'r int
  | CreateRejected nat
  | CreateUntracked nat
  | Dispense int
  | DestroySettled nat
  | BorrowValidated nat bool int
  | BorrowValidationFailed nat int
  | ReturnValidated nat bool int
  | ReturnValidationFailed nat int
  | TimerFired nat "nat option" int

fun step :: "'r event \<Rightarrow> 'r Pool \<Rightarrow> 'r Pool" where
  "step Start p = start p"
| "step (Acquire priority now) p = snd (acquire priority now p)"
| "step (Release resource now) p = snd (release resource now p)"
| "step (Destroy resource now) p = snd (destroy resource now p)"
| "step Drain p = drain p"
| "step (ClearSettled snapshot) p =
     (if clear_ready snapshot p
      then (case clear_settled p of Inl e \<Rightarrow> p | Inr p1 \<Rightarrow> p1)
      else p)"
| "step ClearFinished p = clear_finished p"
| "step (CreateFulfilled op resource now) p = createFulfilled op resource now p"
| "step (CreateRejected op) p = createRejected op p"
| "step (CreateUntracked op) p = createUntracked op p"
| "step (Dispense now) p = dispense now p"
| "step (DestroySettled op) p = destroySettled op p"
| "step (BorrowValidated op isValid now) p = borrowValidated op isValid now p"
| "step (BorrowValidationFailed op now) p = borrowValidationFailed op now p"
| "step (ReturnValidated op isValid now) p = returnValidated op isValid now p"
| "step (ReturnValidationFailed op now) p = returnValidationFailed op now p"
| "step (TimerFired h victim now) p = timerFired h victim now p"

fun run :: "'r event list \<Rightarrow> 'r Pool \<Rightarrow> 'r Pool" where
  "run [] p = p"
| "run (e # es) p = run es (step e p)"

definition pendingCreates :: "'r Pool \<Rightarrow> nat" where
  "pendingCreates p = length (filter (\<lambda>e. snd e = OpPending) (factoryCreateOperations p))"

text \<open>
  The capacity invariant: the registered resources and the create operations that are
  still pending fit under \<open>max\<close>, and \<open>min\<close> does not exceed \<open>max\<close>.
\<close>

definition capacity_inv :: "'r Pool \<Rightarrow> bool" where
  "capacity_inv p \<longleftrightarrow>
     int (length (allObjects p)) + int (pendingCreates p) \<le> max_opt (config p)
     \<and> min_opt (config p) \<le> max_opt (config p)"


definition pool22 :: "nat Pool" where
  "pool22 = run [CreateFulfilled 0 42 1000, CreateFulfilled 1 43 1001, CreateUntracked 0, CreateUntracked 1]
              (createPool (no_options\<lparr> opt_min := Some 2, opt_max := Some 2 \<rparr>))"





definition opts_manual :: IPoolOptionsParams where
  "opts_manual = no_options\<lparr> opt_autostart := Some False, opt_min := Some 1, opt_max := Some 1,
                            opt_evictionRunIntervalMillis := Some 1000 \<rparr>"

definition pool_manual :: "nat Pool" where
  "pool_manual = createPool opts_manual"


definition pool_manual_drained :: "nat Pool" where
  "pool_manual_drained = drain pool_manual"

section \<open>The doubly-linked list and its cursor\<close>

text \<open>
  \<open>DoublyLinkedList<T>\<close> and its nodes. Nodes are objects that the list, its
  neighbours and any cursor share by reference; they live in the store \<open>nodes\<close>
  under their address, and \<open>fresh\<close> is the next address \<open>createNode\<close> hands out.
  A \<open>null\<close> link is \<open>None\<close>.
\<close>

record 'a INode =
  node_prev :: "nat option"
  node_next :: "nat option"
  node_data :: 'a

record 'a DoublyLinkedList =
  nodes :: "nat \<rightharpoonup> 'a INode"
  head :: "nat option"
  tail :: "nat option"
  dll_length :: int
  fresh :: nat

definition new_DoublyLinkedList :: "'a DoublyLinkedList" where
  "new_DoublyLinkedList = \<lparr> nodes = Map.empty, head = None, tail = None, dll_length = 0, fresh = 0 \<rparr>"

definition prev_of :: "'a DoublyLinkedList \<Rightarrow> nat \<Rightarrow> nat option" where
  "prev_of d n = (case nodes d n of None \<Rightarrow> None | Some x \<Rightarrow> node_prev x)"

definition next_of :: "'a DoublyLinkedList \<Rightarrow> nat \<Rightarrow> nat option" where
  "next_of d n = (case nodes d n of None \<Rightarrow> None | Some x \<Rightarrow> node_next x)"

definition set_prev :: "nat \<Rightarrow> nat option \<Rightarrow> 'a DoublyLinkedList \<Rightarrow> 'a DoublyLinkedList" where
  "set_prev n v d = d\<lparr> nodes := (nodes d)(n := map_option (\<lambda>x. x\<lparr> node_prev := v \<rparr>) (nodes d n)) \<rparr>"

definition set_next :: "nat \<Rightarrow> nat option \<Rightarrow> 'a DoublyLinkedList \<Rightarrow> 'a DoublyLinkedList" where
  "set_next n v d = d\<lparr> nodes := (nodes d)(n := map_option (\<lambda>x. x\<lparr> node_next := v \<rparr>) (nodes d n)) \<rparr>"

definition createNode :: "'a \<Rightarrow> 'a DoublyLinkedList \<Rightarrow> nat \<times> 'a DoublyLinkedList" where
  "createNode v d =
     (fresh d,
      d\<lparr> nodes := (nodes d)(fresh d \<mapsto> \<lparr> node_prev = None, node_next = None, node_data = v \<rparr>),
         fresh := Suc (fresh d) \<rparr>)"

text \<open>
  The list operations, statement by statement. \<open>insertEnd\<close> on an empty list
  creates a node and then calls \<open>insertBeginning(data)\<close>, which creates and links a
  second one; the node it returns is the first, which is not in the list.
\<close>

definition insertAfter :: "nat \<Rightarrow> nat \<Rightarrow> 'a DoublyLinkedList \<Rightarrow> 'a DoublyLinkedList" where
  "insertAfter node newNode d =
     (let d1 = set_prev newNode (Some node) d;
          d2 = set_next newNode (next_of d1 node) d1;
          d3 = (case next_of d2 node of
                  None \<Rightarrow> d2\<lparr> tail := Some newNode \<rparr>
                | Some nx \<Rightarrow> set_prev nx (Some newNode) d2);
          d4 = set_next node (Some newNode) d3
      in d4\<lparr> dll_length := dll_length d4 + 1 \<rparr>)"

definition insertBefore :: "nat \<Rightarrow> nat \<Rightarrow> 'a DoublyLinkedList \<Rightarrow> 'a DoublyLinkedList" where
  "insertBefore node newNode d =
     (let d1 = set_prev newNode (prev_of d node) d;
          d2 = set_next newNode (Some node) d1;
          d3 = (case prev_of d2 node of
                  None \<Rightarrow> d2\<lparr> head := Some newNode \<rparr>
                | Some pv \<Rightarrow> set_next pv (Some newNode) d2);
          d4 = set_prev node (Some newNode) d3
      in d4\<lparr> dll_length := dll_length d4 + 1 \<rparr>)"

definition insertBeginning :: "'a \<Rightarrow> 'a DoublyLinkedList \<Rightarrow> nat \<times> 'a DoublyLinkedList" where
  "insertBeginning v d =
     (let nd = createNode v d; node = fst nd; d1 = snd nd
      in case head d1 of
           None \<Rightarrow> (node, d1\<lparr> head := Some node, tail := Some node, dll_length := dll_length d1 + 1 \<rparr>)
         | Some h \<Rightarrow> (node, insertBefore h node d1))"

definition insertEnd :: "'a \<Rightarrow> 'a DoublyLinkedList \<Rightarrow> nat \<times> 'a DoublyLinkedList" where
  "insertEnd v d =
     (let nd = createNode v d; node = fst nd; d1 = snd nd
      in case tail d1 of
           None \<Rightarrow> (node, snd (insertBeginning v d1))
         | Some t \<Rightarrow> (node, insertAfter t node d1))"

definition remove :: "nat \<Rightarrow> 'a DoublyLinkedList \<Rightarrow> 'a DoublyLinkedList" where
  "remove node d =
     (let d1 = (case prev_of d node of
                  None \<Rightarrow> d\<lparr> head := next_of d node \<rparr>
                | Some pv \<Rightarrow> set_next pv (next_of d node) d);
          d2 = (case next_of d1 node of
                  None \<Rightarrow> d1\<lparr> tail := prev_of d1 node \<rparr>
                | Some nx \<Rightarrow> set_prev nx (prev_of d1 node) d1);
          d3 = set_next node None (set_prev node None d2)
      in d3\<lparr> dll_length := dll_length d3 - 1 \<rparr>)"

text \<open>
  \<open>DoublyLinkedListIterator<T>\<close>: the direction, the flags and the cursor. The list
  is passed to each method. \<open>iterator_next\<close> is its \<open>next\<close> and returns the node
  (\<open>None\<close> for \<open>done\<close>); \<open>DequeIterator_next\<close> is the \<open>next\<close> of \<open>DequeIterator\<close>,
  which unwraps the data; the pool's eviction cursor is such an iterator over the
  available cache.
\<close>

record DoublyLinkedListIterator =
  reverse :: bool
  it_started :: bool
  cursor :: "nat option"
  it_done :: bool

definition new_DoublyLinkedListIterator :: "bool \<Rightarrow> DoublyLinkedListIterator" where
  "new_DoublyLinkedListIterator backwards = \<lparr> reverse = backwards, it_started = False, cursor = None, it_done = False \<rparr>"

definition advanceCursor :: "DoublyLinkedListIterator \<Rightarrow> 'a DoublyLinkedList \<Rightarrow> DoublyLinkedListIterator" where
  "advanceCursor it d =
     (if \<not> it_started it
      then it\<lparr> it_started := True, cursor := (if reverse it then tail d else head d) \<rparr>
      else (case cursor it of
              None \<Rightarrow> it
            | Some c \<Rightarrow> it\<lparr> cursor := (if reverse it then prev_of d c else next_of d c) \<rparr>))"

definition reset :: "DoublyLinkedListIterator \<Rightarrow> DoublyLinkedListIterator" where
  "reset it = it\<lparr> it_done := False, it_started := False, cursor := None \<rparr>"

definition isCursorDetached :: "DoublyLinkedListIterator \<Rightarrow> 'a DoublyLinkedList \<Rightarrow> bool" where
  "isCursorDetached it d =
     (case cursor it of
        None \<Rightarrow> True
      | Some c \<Rightarrow>
          (let isTrulyOrphaned = (prev_of d c = None \<and> next_of d c = None
                                  \<and> tail d \<noteq> Some c \<and> head d \<noteq> Some c)
           in if dll_length d = 0 then True else isTrulyOrphaned))"

definition iterator_next ::
  "DoublyLinkedListIterator \<Rightarrow> 'a DoublyLinkedList \<Rightarrow> nat option \<times> DoublyLinkedListIterator" where
  "iterator_next it d =
     (if it_done it then (None, it)
      else (let it1 = advanceCursor it d
            in if cursor it1 = None \<or> isCursorDetached it1 d
               then (None, it1\<lparr> it_done := True \<rparr>)
               else (cursor it1, it1)))"

definition iterator_remove :: "DoublyLinkedListIterator \<Rightarrow> 'a DoublyLinkedList \<Rightarrow> 'a DoublyLinkedList" where
  "iterator_remove it d =
     (if \<not> it_started it \<or> it_done it \<or> cursor it = None \<or> isCursorDetached it d then d
      else (case cursor it of None \<Rightarrow> d | Some c \<Rightarrow> remove c d))"

definition DequeIterator_next ::
  "DoublyLinkedListIterator \<Rightarrow> 'a DoublyLinkedList \<Rightarrow> 'a option \<times> DoublyLinkedListIterator" where
  "DequeIterator_next it d =
     (case iterator_next it d of
        (None, it1) \<Rightarrow> (None, it1)
      | (Some c, it1) \<Rightarrow> (map_option node_data (nodes d c), it1))"

text \<open>
  The list \<open>d\<close> holds exactly the nodes \<open>xs\<close>, from head to tail: the nodes are
  distinct, each is linked to its neighbours in both directions, \<open>head\<close>, \<open>tail\<close>
  and \<open>length\<close> agree. \<open>seg\<close> is the same for a stretch of a list with given
  neighbours, and \<open>successor n xs\<close> is the element that follows \<open>n\<close> in \<open>xs\<close>.
\<close>

fun linked :: "'a DoublyLinkedList \<Rightarrow> nat option \<Rightarrow> nat list \<Rightarrow> bool" where
  "linked d p [] = True"
| "linked d p (x # xs) =
     ((case nodes d x of
         None \<Rightarrow> False
       | Some nd \<Rightarrow> node_prev nd = p
                    \<and> node_next nd = (case xs of [] \<Rightarrow> None | y # ys \<Rightarrow> Some y))
      \<and> linked d (Some x) xs)"

definition dll_wf :: "'a DoublyLinkedList \<Rightarrow> nat list \<Rightarrow> bool" where
  "dll_wf d xs \<longleftrightarrow>
     distinct xs \<and> linked d None xs
     \<and> head d = (case xs of [] \<Rightarrow> None | x # ys \<Rightarrow> Some x)
     \<and> tail d = (if xs = [] then None else Some (last xs))
     \<and> dll_length d = int (length xs)"

fun seg :: "'a DoublyLinkedList \<Rightarrow> nat option \<Rightarrow> nat list \<Rightarrow> nat option \<Rightarrow> bool" where
  "seg d p [] q = True"
| "seg d p (x # xs) q =
     ((case nodes d x of
         None \<Rightarrow> False
       | Some nd \<Rightarrow> node_prev nd = p
                    \<and> node_next nd = (case xs of [] \<Rightarrow> q | y # ys \<Rightarrow> Some y))
      \<and> seg d (Some x) xs q)"

fun successor :: "nat \<Rightarrow> nat list \<Rightarrow> nat option" where
  "successor n [] = None"
| "successor n [x] = None"
| "successor n (x # y # ys) = (if x = n then Some y else successor n (y # ys))"

text \<open>A concrete list of three nodes and a cursor on its first node.\<close>

definition list3 :: "string DoublyLinkedList" where
  "list3 = snd (insertEnd ''c'' (snd (insertEnd ''b'' (snd (insertEnd ''a'' new_DoublyLinkedList)))))"

definition hd_or :: "nat list \<Rightarrow> nat option \<Rightarrow> nat option" where
  "hd_or xs q = (case xs of [] \<Rightarrow> q | y # ys \<Rightarrow> Some y)"

definition last_or :: "nat list \<Rightarrow> nat option \<Rightarrow> nat option" where
  "last_or xs p = (if xs = [] then p else Some (last xs))"

definition cursor_at_1 :: DoublyLinkedListIterator where
  "cursor_at_1 = snd (iterator_next (new_DoublyLinkedListIterator False) list3)"

subsection \<open>The deque over the linked list\<close>

text \<open>
  \<open>Deque<T>\<close> as the source has it, over the nodes of its \<open>DoublyLinkedList\<close>:
  \<open>shift\<close> and \<open>pop\<close> return \<open>undefined\<close> on length 0, otherwise remove the head (the
  tail) and read its data afterwards; \<open>remove\<close> throws on a null node. \<open>unshift\<close> and
  \<open>push\<close> are \<open>insertBeginning\<close> and \<open>insertEnd\<close>. \<open>deque_repr d xs vs\<close> relates such a
  list, with its nodes \<open>xs\<close> from head to tail, to the sequence \<open>vs\<close> of their data, which
  is how the pool's deques are modelled.
\<close>

definition contents :: "'a DoublyLinkedList \<Rightarrow> nat list \<Rightarrow> 'a option list" where
  "contents d xs = map (\<lambda>x. map_option node_data (nodes d x)) xs"

definition deque_repr :: "'a DoublyLinkedList \<Rightarrow> nat list \<Rightarrow> 'a list \<Rightarrow> bool" where
  "deque_repr d xs vs \<longleftrightarrow>
     dll_wf d xs \<and> list_all (\<lambda>x. x < fresh d) xs \<and> contents d xs = map Some vs"

definition dll_shift :: "'a DoublyLinkedList \<Rightarrow> error + ('a option \<times> 'a DoublyLinkedList)" where
  "dll_shift d =
     (if dll_length d = 0 then Inr (None, d)
      else (case head d of
              None \<Rightarrow> Inl (Error ''Node to remove cannot be null'')
            | Some node \<Rightarrow>
                (let d' = remove node d
                 in Inr (map_option node_data (nodes d' node), d'))))"

definition dll_pop :: "'a DoublyLinkedList \<Rightarrow> error + ('a option \<times> 'a DoublyLinkedList)" where
  "dll_pop d =
     (if dll_length d = 0 then Inr (None, d)
      else (case tail d of
              None \<Rightarrow> Inl (Error ''Node to remove cannot be null'')
            | Some node \<Rightarrow>
                (let d' = remove node d
                 in Inr (map_option node_data (nodes d' node), d'))))"

definition dll_unshift :: "'a \<Rightarrow> 'a DoublyLinkedList \<Rightarrow> 'a DoublyLinkedList" where
  "dll_unshift element d = snd (insertBeginning element d)"

definition dll_push :: "'a \<Rightarrow> 'a DoublyLinkedList \<Rightarrow> 'a DoublyLinkedList" where
  "dll_push element d = snd (insertEnd element d)"

section \<open>Properties of pooled resources\<close>

lemma lifecycle_step_idle_has_time:
  "(state r = IDLE \<longrightarrow> lastIdleTime r \<noteq> None) \<Longrightarrow>
   state (lifecycle_step c r) = IDLE \<longrightarrow> lastIdleTime (lifecycle_step c r) \<noteq> None"
  by (cases c) (simp_all add: allocate_def deallocate_def idle_def test_def returning_def
      invalidate_def)

lemma lifecycle_run_idle_has_time:
  "(state r = IDLE \<longrightarrow> lastIdleTime r \<noteq> None) \<Longrightarrow>
   state (lifecycle_run cs r) = IDLE \<longrightarrow> lastIdleTime (lifecycle_run cs r) \<noteq> None"
proof (induction cs arbitrary: r)
  case Nil
  then show ?case by simp
next
  case (Cons c cs)
  from Cons.prems have "state (lifecycle_step c r) = IDLE \<longrightarrow>
      lastIdleTime (lifecycle_step c r) \<noteq> None"
    by (rule lifecycle_step_idle_has_time)
  then show ?case using Cons.IH by simp
qed

text \<open>
  Claim C6. The claim says that after any sequence of lifecycle operations the field
  \<open>lastIdleTime\<close> is non-null exactly when the state is \<open>IDLE\<close>. The methods \<open>test\<close>,
  \<open>returning\<close> and \<open>invalidate\<close> only assign the state: a resource that is validated
  straight after construction is in state \<open>VALIDATION\<close> and still carries the idle
  timestamp that the constructor wrote, so the equivalence is broken there.
\<close>

theorem C6_test_keeps_lastIdleTime:
  "state (lifecycle_run [Test] (new_PooledResource (0::nat) 1000)) = VALIDATION
   \<and> lastIdleTime (lifecycle_run [Test] (new_PooledResource (0::nat) 1000)) = Some 1000
   \<and> \<not> idle_time_agrees (lifecycle_run [Test] (new_PooledResource (0::nat) 1000))"
  by (simp add: new_PooledResource_def test_def idle_time_agrees_def)


section \<open>Properties of resource requests\<close>

text \<open>
  Claim C7, as stated, fails at two inputs. A pending request given the delay \<open>0\<close>
  (an integer that is not negative) raises instead of arming a timer, and given the
  delay \<open>3/2\<close> (not an integer) it arms a timer of \<open>\<lfloor>3/2\<rfloor> - age\<close> instead of
  raising: the code floors the delay and rejects what is not positive after that.
\<close>

theorem C7_zero_and_fraction_counterexample:
  "deferred_state request0 = PENDING
   \<and> setTimeout 7 (Num 0) 100 (request0, timers0) = Inl (Error ''Delay must be a positive integer.'')
   \<and> setTimeout 7 (Num (3/2)) 100 (request0, timers0)
       = Inr (request0\<lparr> timerRef := Some 1 \<rparr>,
              \<lparr> next_handle = 2, armed = [(1, FireTimeout 7, 1)] \<rparr>)"
  by (simp add: setTimeout_def request0_def timers0_def js_setTimeout_def floor_unique)

text \<open>
  Claim C7, amended. \<open>setTimeout(delay)\<close> returns without any effect when the request
  is not pending. When it is pending, a delay that is \<open>NaN\<close> or below \<open>1\<close> (its floor
  is not positive) is an error; any other delay is floored, the prior timer (if one is
  recorded) is cancelled, and a new timer for this request is armed with the effective
  delay \<open>max (\<lfloor>delay\<rfloor> - age) 0\<close>, where \<open>age\<close> is the time elapsed since the request
  was created; its handle is recorded in the request.
\<close>

theorem C7_setTimeout_amended:
  "(deferred_state req \<noteq> PENDING \<longrightarrow> setTimeout self d now (req, tm) = Inr (req, tm))
   \<and> (deferred_state req = PENDING \<and> (d = NaN \<or> d = Num q \<and> q < 1) \<longrightarrow>
        setTimeout self d now (req, tm) = Inl (Error ''Delay must be a positive integer.''))
   \<and> (deferred_state req = PENDING \<and> d = Num q \<and> 1 \<le> q \<longrightarrow>
        setTimeout self d now (req, tm)
          = Inr (req\<lparr> timerRef := Some (next_handle tm) \<rparr>,
                 \<lparr> next_handle = Suc (next_handle tm),
                   armed = filter (\<lambda>t. Some (fst t) \<noteq> timerRef req) (armed tm)
                           @ [(next_handle tm, FireTimeout self,
                               max (\<lfloor>q\<rfloor> - (now - creationTimestamp req)) 0)] \<rparr>))"
proof (intro conjI impI)
  assume "deferred_state req \<noteq> PENDING"
  then show "setTimeout self d now (req, tm) = Inr (req, tm)"
    by (simp add: setTimeout_def)
next
  assume a: "deferred_state req = PENDING \<and> (d = NaN \<or> d = Num q \<and> q < 1)"
  then consider "d = NaN" | "d = Num q" "q < 1" by blast
  then show "setTimeout self d now (req, tm) = Inl (Error ''Delay must be a positive integer.'')"
  proof cases
    case 1
    with a show ?thesis by (simp add: setTimeout_def)
  next
    case 2
    then have "\<lfloor>q\<rfloor> \<le> 0" by linarith
    with a 2 show ?thesis by (simp add: setTimeout_def)
  qed
next
  assume a: "deferred_state req = PENDING \<and> d = Num q \<and> 1 \<le> q"
  then have pos: "\<not> \<lfloor>q\<rfloor> \<le> 0" by linarith
  show "setTimeout self d now (req, tm)
          = Inr (req\<lparr> timerRef := Some (next_handle tm) \<rparr>,
                 \<lparr> next_handle = Suc (next_handle tm),
                   armed = filter (\<lambda>t. Some (fst t) \<noteq> timerRef req) (armed tm)
                           @ [(next_handle tm, FireTimeout self,
                               max (\<lfloor>q\<rfloor> - (now - creationTimestamp req)) 0)] \<rparr>)"
  proof (cases "timerRef req")
    case None
    with a pos show ?thesis
      by (simp add: setTimeout_def js_setTimeout_def Let_def)
  next
    case (Some h)
    have "filter (\<lambda>t. fst t \<noteq> h) (armed tm) = filter (\<lambda>t. Some (fst t) \<noteq> Some h) (armed tm)"
      by simp
    with a pos Some show ?thesis
      by (simp add: setTimeout_def js_setTimeout_def clearTimeout_def js_clearTimeout_def Let_def)
  qed
qed

theorem C7_setTimeout_amended_witness:
  "setTimeout 7 (Num 5) 100 (request0\<lparr> deferred_state := FULFILLED \<rparr>, timers0)
     = Inr (request0\<lparr> deferred_state := FULFILLED \<rparr>, timers0)
   \<and> setTimeout 7 (Num (1/2)) 103 (request0, timers0)
     = Inl (Error ''Delay must be a positive integer.'')
   \<and> setTimeout 7 (Num (11/2)) 103
        (request0\<lparr> timerRef := Some 4 \<rparr>,
         \<lparr> next_handle = 5, armed = [(3, EvictorRun, 50), (4, FireTimeout 7, 9)] \<rparr>)
     = Inr (request0\<lparr> timerRef := Some 5 \<rparr>,
            \<lparr> next_handle = 6, armed = [(3, EvictorRun, 50), (5, FireTimeout 7, 2)] \<rparr>)"
proof -
  have f: "\<lfloor>11 / 2 :: rat\<rfloor> = 5" by (simp add: floor_unique)
  show ?thesis
    using C7_setTimeout_amended [of "request0\<lparr> deferred_state := FULFILLED \<rparr>" 7 "Num 5" 100 timers0 5]
      C7_setTimeout_amended [of request0 7 "Num (1/2)" 103 timers0 "1/2"]
      C7_setTimeout_amended [of "request0\<lparr> timerRef := Some 4 \<rparr>" 7 "Num (11/2)" 103
        "\<lparr> next_handle = 5, armed = [(3, EvictorRun, 50), (4, FireTimeout 7, 9)] \<rparr>" "11/2"]
    by (simp add: request0_def f)
qed

section \<open>Properties of the priority queue\<close>








section \<open>Properties of the pool's capacity\<close>

lemma capacity_inv_cong:
  "config p = config q \<Longrightarrow> allObjects p = allObjects q \<Longrightarrow>
   factoryCreateOperations p = factoryCreateOperations q \<Longrightarrow> capacity_inv p = capacity_inv q"
  by (simp add: capacity_inv_def pendingCreates_def)

lemma on_pooled_fields [simp]:
  "config (on_pooled pr f p) = config p"
  "allObjects (on_pooled pr f p) = allObjects p"
  "factoryCreateOperations (on_pooled pr f p) = factoryCreateOperations p"
  by (simp_all add: on_pooled_def)

lemma addPooled_fields [simp]:
  "config (addPooledResourceToAvailableObjects now pr p) = config p"
  "allObjects (addPooledResourceToAvailableObjects now pr p) = allObjects p"
  "factoryCreateOperations (addPooledResourceToAvailableObjects now pr p) = factoryCreateOperations p"
  by (simp_all add: addPooledResourceToAvailableObjects_def Let_def)

lemma createResource_fields [simp]:
  "config (createResource p) = config p"
  "allObjects (createResource p) = allObjects p"
  "draining (createResource p) = draining p"
  "started (createResource p) = started p"
  "length (factoryCreateOperations (createResource p)) = Suc (length (factoryCreateOperations p))"
  "pendingCreates (createResource p) = Suc (pendingCreates p)"
  by (simp_all add: createResource_def pendingCreates_def)

lemma createResource_pow_fields [simp]:
  "config ((createResource ^^ n) p) = config p"
  "allObjects ((createResource ^^ n) p) = allObjects p"
  "draining ((createResource ^^ n) p) = draining p"
  "started ((createResource ^^ n) p) = started p"
  "length (factoryCreateOperations ((createResource ^^ n) p)) = length (factoryCreateOperations p) + n"
  "pendingCreates ((createResource ^^ n) p) = pendingCreates p + n"
  by (induction n) simp_all


lemma config_ensureMinimum [simp]: "config (ensureMinimum p) = config p"
  by (simp add: ensureMinimum_def Let_def)


lemma dispatch_fields [simp]:
  "config (snd (dispatchPooledResourceToNextWaitingClient now pr p)) = config p"
  "allObjects (snd (dispatchPooledResourceToNextWaitingClient now pr p)) = allObjects p"
  "factoryCreateOperations (snd (dispatchPooledResourceToNextWaitingClient now pr p))
     = factoryCreateOperations p"
  unfolding dispatchPooledResourceToNextWaitingClient_def Let_def
  by (simp_all split: option.splits prod.splits)

lemma dispatchResource_fields [simp]:
  "config (dispatchResource now p) = config p"
  "allObjects (dispatchResource now p) = allObjects p"
  "factoryCreateOperations (dispatchResource now p) = factoryCreateOperations p"
  unfolding dispatchResource_def
  by (simp_all split: option.splits prod.splits)

lemma dispatchResource_pow_fields [simp]:
  "config ((dispatchResource now ^^ n) p) = config p"
  "allObjects ((dispatchResource now ^^ n) p) = allObjects p"
  "factoryCreateOperations ((dispatchResource now ^^ n) p) = factoryCreateOperations p"
  by (induction n) simp_all

lemma run_testOnBorrow_fields [simp]:
  "config (run_testOnBorrow p) = config p"
  "allObjects (run_testOnBorrow p) = allObjects p"
  "factoryCreateOperations (run_testOnBorrow p) = factoryCreateOperations p"
  unfolding run_testOnBorrow_def Let_def
  by (simp_all split: option.splits prod.splits)

lemma run_testOnBorrow_pow_fields [simp]:
  "config ((run_testOnBorrow ^^ n) p) = config p"
  "allObjects ((run_testOnBorrow ^^ n) p) = allObjects p"
  "factoryCreateOperations ((run_testOnBorrow ^^ n) p) = factoryCreateOperations p"
  by (induction n) simp_all


lemma config_dispense [simp]: "config (dispense now p) = config p"
  by (simp add: dispense_def Let_def)



lemma track_destroy_fields [simp]:
  "config (track_destroy p) = config p"
  "allObjects (track_destroy p) = allObjects p"
  "factoryCreateOperations (track_destroy p) = factoryCreateOperations p"
  by (simp_all add: track_destroy_def Let_def split: option.splits)

lemma call_factory_destroy_fields [simp]:
  "config (call_factory_destroy pr p) = config p"
  "allObjects (call_factory_destroy pr p) = allObjects p"
  "factoryCreateOperations (call_factory_destroy pr p) = factoryCreateOperations p"
  by (simp_all add: call_factory_destroy_def split: option.splits)

lemma config_destroyPooled [simp]: "config (destroyPooled pr p) = config p"
  by (simp add: destroyPooled_def Let_def)



lemma scheduleEvictorRun_fields [simp]:
  "config (scheduleEvictorRun p) = config p"
  "allObjects (scheduleEvictorRun p) = allObjects p"
  "factoryCreateOperations (scheduleEvictorRun p) = factoryCreateOperations p"
  by (simp_all add: scheduleEvictorRun_def Let_def)

lemma descheduleEvictorRun_fields [simp]:
  "config (descheduleEvictorRun p) = config p"
  "allObjects (descheduleEvictorRun p) = allObjects p"
  "factoryCreateOperations (descheduleEvictorRun p) = factoryCreateOperations p"
  by (simp_all add: descheduleEvictorRun_def split: option.splits)







lemma clear_forEach_fields:
  "clear_forEach xs p = Inr q \<Longrightarrow>
   config q = config p \<and> allObjects q = allObjects p
   \<and> factoryCreateOperations q = factoryCreateOperations p"
  by (induction xs arbitrary: p) (auto split: sum.splits)











lemma capacity_inv_untrack_validation [simp]:
  "capacity_inv (untrack_validation op p) = capacity_inv p"
  by (simp add: untrack_validation_def capacity_inv_def pendingCreates_def)

lemma capacity_inv_on_pooled [simp]: "capacity_inv (on_pooled pr f p) = capacity_inv p"
  by (rule capacity_inv_cong) simp_all

lemma capacity_inv_addPooled [simp]:
  "capacity_inv (addPooledResourceToAvailableObjects now pr p) = capacity_inv p"
  by (rule capacity_inv_cong) simp_all

lemma capacity_inv_dispatch [simp]:
  "capacity_inv (snd (dispatchPooledResourceToNextWaitingClient now pr p)) = capacity_inv p"
  by (rule capacity_inv_cong) simp_all

lemma capacity_inv_testOnBorrowResources_update [simp]:
  "capacity_inv (p\<lparr>testOnBorrowResources := t\<rparr>) = capacity_inv p"
  by (simp add: capacity_inv_def pendingCreates_def)





lemma capacity_inv_scheduleEvictorRun [simp]:
  "capacity_inv (scheduleEvictorRun p) = capacity_inv p"
  by (rule capacity_inv_cong) simp_all


lemma capacity_inv_host_update [simp]:
  "capacity_inv (p\<lparr>host_timers := t\<rparr>) = capacity_inv p"
  "capacity_inv (p\<lparr>store_requests := rq\<rparr>) = capacity_inv p"
  by (simp_all add: capacity_inv_def pendingCreates_def)






lemma dispense_creates:
  "1 \<le> pq_length (waitingClientsQueue p) \<Longrightarrow>
   length (factoryCreateOperations (dispense now p))
     = length (factoryCreateOperations p)
       + nat (min (spareResourceCapacity p)
                  (pq_length (waitingClientsQueue p) - potentiallyAllocableResourceCount p))"
  by (simp add: dispense_def Let_def)

lemma dispense_idle:
  "pq_length (waitingClientsQueue p) < 1 \<Longrightarrow> dispense now p = p"
  by (simp add: dispense_def Let_def)

lemma ensureMinimum_creates:
  "length (factoryCreateOperations (ensureMinimum p))
     = length (factoryCreateOperations p)
       + (if draining p \<or> \<not> started p then 0 else nat (min_opt (config p) - count p))"
  by (simp add: ensureMinimum_def Let_def)




lemma config_start [simp]: "config (start p) = config p"
  by (simp add: start_def)

lemma config_acquire [simp]: "config (snd (acquire priority now p)) = config p"
  by (simp add: acquire_def acquire_checked_def acquire_enqueue_def Let_def split: sum.splits)

lemma config_release [simp]: "config (snd (release resource now p)) = config p"
  by (simp add: release_def Let_def split: option.splits)

lemma config_destroy [simp]: "config (snd (destroy resource now p)) = config p"
  by (simp add: destroy_def Let_def split: option.splits)

lemma config_drain [simp]: "config (drain p) = config p"
  by (simp add: drain_def)

lemma config_clear_settled: "clear_settled p = Inr q \<Longrightarrow> config q = config p"
  by (auto simp: clear_settled_def Let_def split: sum.splits dest: clear_forEach_fields)

lemma config_creates [simp]:
  "config (createFulfilled op resource now p) = config p"
  "config (createRejected op p) = config p"
  "config (createUntracked op p) = config p"
  "config (destroySettled op p) = config p"
  "config (untrack_validation op p) = config p"
  by (simp_all add: createFulfilled_def createRejected_def createUntracked_def destroySettled_def
      untrack_validation_def Let_def)

lemma config_validations [simp]:
  "config (borrowValidated op isValid now p) = config p"
  "config (borrowValidationFailed op now p) = config p"
  "config (returnValidated op isValid now p) = config p"
  "config (returnValidationFailed op now p) = config p"
  by (simp_all add: borrowValidated_def borrowValidationFailed_def returnValidated_def
      returnValidationFailed_def Let_def split: option.splits validation_kind.splits)

lemma config_evictor_callback [simp]: "config (evictor_callback victim now p) = config p"
  by (simp add: evictor_callback_def evict_def Deque_remove_def split: option.splits sum.splits)

lemma config_timerFired [simp]: "config (timerFired h victim now p) = config p"
  by (simp add: timerFired_def Let_def split: option.splits callback.splits)

lemma config_step [simp]: "config (step e p) = config p"
  by (cases e) (auto simp: clear_finished_def split: sum.splits dest: config_clear_settled)

lemma config_run [simp]: "config (run es p) = config p"
  by (induction es arbitrary: p) simp_all

lemma config_createPool [simp]: "config (createPool opts) = new_PoolOptions opts"
  by (simp add: createPool_def new_Pool_def Let_def)






section \<open>Properties of dispatching\<close>

lemma cfg22:
  "max_opt (new_PoolOptions (no_options\<lparr> opt_min := Some 2, opt_max := Some 2 \<rparr>)) = 2"
  "min_opt (new_PoolOptions (no_options\<lparr> opt_min := Some 2, opt_max := Some 2 \<rparr>)) = 2"
  "fifo (new_PoolOptions (no_options\<lparr> opt_min := Some 2, opt_max := Some 2 \<rparr>))"
  "\<not> testOnReturn (new_PoolOptions (no_options\<lparr> opt_min := Some 2, opt_max := Some 2 \<rparr>))"
  "\<not> testOnBorrow (new_PoolOptions (no_options\<lparr> opt_min := Some 2, opt_max := Some 2 \<rparr>))"
  "priorityRange (new_PoolOptions (no_options\<lparr> opt_min := Some 2, opt_max := Some 2 \<rparr>)) = Num 1"
  by (simp_all add: new_PoolOptions_def no_options_def or_default_def Let_def)

lemma pq1: "(new_PriorityQueue (Num 1) :: nat PriorityQueue) = \<lparr> pq_size = 1, slots = [[]] \<rparr>"
proof -
  have "\<lfloor>1::rat\<rfloor> = 1" by simp
  then show ?thesis by (simp add: new_PriorityQueue_def trunc_def wrap32_def Let_def)
qed

lemma pool22_fields:
  "config pool22 = new_PoolOptions (no_options\<lparr> opt_min := Some 2, opt_max := Some 2 \<rparr>)"
  "allObjects pool22 = [3, 2]" "factoryCreateOperations pool22 = []"
  "availableObjects pool22 = [2, 3]" "started pool22" "\<not> draining pool22" "next_ref pool22 = 4"
  "testOnBorrowResources pool22 = []"
  "waitingClientsQueue pool22 = \<lparr> pq_size = 1, slots = [[]] \<rparr>"
  "store_resources pool22 2 = Some \<lparr> creationTime = 1000, lastReturnTime = None, lastBorrowTime = None,
       lastIdleTime = Some 1000, obj = 42, state = IDLE \<rparr>"
  "store_resources pool22 3 = Some \<lparr> creationTime = 1001, lastReturnTime = None, lastBorrowTime = None,
       lastIdleTime = Some 1001, obj = 43, state = IDLE \<rparr>"
  "destroy_calls pool22 = []"
  by (simp_all add: pool22_def createPool_def new_Pool_def cfg22 pq1 Let_def start_def
      scheduleEvictorRun_def ensureMinimum_def count_def createResource_def numeral_2_eq_2
      createFulfilled_def createUntracked_def addPooledResourceToAvailableObjects_def
      on_pooled_def new_PooledResource_def idle_def Deque_push_def List.insert_def
      new_PoolOptions_def no_options_def or_default_def)







section \<open>Properties of clear\<close>

lemma clear_nonempty:
  "availableObjects p \<noteq> [] \<Longrightarrow>
   clear p = (Rejects (TypeError ''this._availableObjects.remove is not a function''), p)"
  by (cases "availableObjects p")
     (simp_all add: clear_def clear_settled_def Let_def Deque_remove_def)

lemma clear_step_nonempty:
  "availableObjects p \<noteq> [] \<Longrightarrow> step (ClearSettled snapshot) p = p"
  by (cases "availableObjects p")
     (simp_all add: clear_settled_def Let_def Deque_remove_def)

text \<open>
  Claim C5. The claim says that \<open>clear()\<close> destroys every item of the available
  cache, so that the available count is \<open>0\<close> afterwards. On a pool with \<open>min = max = 2\<close>
  whose two resources have been created and sit idle, no create operation is pending
  and \<open>clear\<close> goes straight to its loop. The first statement of the loop body
  calls \<open>this._availableObjects.remove\<close>, which \<open>Deque\<close> does not have: the
  promise of \<open>clear\<close> is rejected, \<open>factory.destroy\<close> is never called, and both
  resources are still in the cache and in \<open>_allObjects\<close>.
\<close>

theorem C5_clear_leaves_cache:
  "length (availableObjects pool22) = 2
   \<and> factoryCreateOperations pool22 = []
   \<and> clear pool22 = (Rejects (TypeError ''this._availableObjects.remove is not a function''), pool22)
   \<and> length (availableObjects (snd (clear pool22))) = 2
   \<and> destroy_calls (snd (clear pool22)) = []
   \<and> allObjects (snd (clear pool22)) = [3, 2]"
  using clear_nonempty [of pool22] by (simp add: pool22_fields)

section \<open>Properties of release\<close>









section \<open>Properties of acquire\<close>

lemma started_basic [simp]:
  "started (on_pooled pr f p) = started p"
  "started (addPooledResourceToAvailableObjects now pr p) = started p"
  "started (snd (dispatchPooledResourceToNextWaitingClient now pr p)) = started p"
  "started (dispatchResource now p) = started p"
  "started (run_testOnBorrow p) = started p"
  by (simp_all add: on_pooled_def addPooledResourceToAvailableObjects_def Let_def
      dispatchPooledResourceToNextWaitingClient_def dispatchResource_def run_testOnBorrow_def
      split: option.splits prod.splits)

lemma started_pows [simp]:
  "started ((dispatchResource now ^^ n) p) = started p"
  "started ((run_testOnBorrow ^^ n) p) = started p"
  by (induction n) simp_all

lemma started_dispense [simp]: "started (dispense now p) = started p"
  by (simp add: dispense_def Let_def)

lemma started_acquire_checked [simp]: "started (snd (acquire_checked priority now p)) = started p"
  by (simp add: acquire_checked_def acquire_enqueue_def Let_def split: sum.splits)

lemma createResource_pow_host:
  "scheduledEviction ((createResource ^^ n) p) = scheduledEviction p"
  "host_timers ((createResource ^^ n) p) = host_timers p"
  by (induction n) (simp_all add: createResource_def)









text \<open>
  Claim C10, amended. On a pool that has not been started, whose \<open>autostart\<close> option
  is false and that is not draining, \<open>acquire\<close> first starts the pool: the started
  flag is set, the evictor's timer is armed exactly when \<open>evictionRunIntervalMillis\<close>
  is positive, and \<open>_ensureMinimum\<close> starts \<open>min - count\<close> creations; the draining
  and capacity tests and all that follows are evaluated on the started pool, and the
  flag is still set when \<open>acquire\<close> returns. On such a pool that is draining,
  \<open>start\<close> does nothing and \<open>acquire\<close> rejects with the pool unchanged.
\<close>

theorem C10_acquire_starts_amended:
  "(\<not> started p \<and> \<not> autostart (config p) \<and> \<not> draining p \<longrightarrow>
       acquire priority now p = acquire_checked priority now (start p)
       \<and> start p = ensureMinimum (scheduleEvictorRun (p\<lparr> started := True \<rparr>))
       \<and> started (start p)
       \<and> started (snd (acquire priority now p))
       \<and> (0 < evictionRunIntervalMillis (config p) \<longrightarrow>
            scheduledEviction (start p) = Some (next_handle (host_timers p))
            \<and> armed (host_timers (start p))
                = armed (host_timers p)
                  @ [(next_handle (host_timers p), EvictorRun, evictionRunIntervalMillis (config p))])
       \<and> (evictionRunIntervalMillis (config p) \<le> 0 \<longrightarrow>
            scheduledEviction (start p) = scheduledEviction p
            \<and> host_timers (start p) = host_timers p)
       \<and> length (factoryCreateOperations (start p))
           = length (factoryCreateOperations p) + nat (min_opt (config p) - count p))
   \<and> (\<not> started p \<and> \<not> autostart (config p) \<and> draining p \<longrightarrow>
       start p = p
       \<and> acquire priority now p
           = (Rejects (Error ''pool is draining and cannot accept work''), p))"
proof -
  have st: "start p = ensureMinimum (scheduleEvictorRun (p\<lparr> started := True \<rparr>))"
    if "\<not> started p" "\<not> draining p"
    using that by (simp add: start_def)
  have em_started: "\<And>q. started (ensureMinimum q) = started q"
    by (simp add: ensureMinimum_def Let_def)
  have em_host: "\<And>q. scheduledEviction (ensureMinimum q) = scheduledEviction q
      \<and> host_timers (ensureMinimum q) = host_timers q"
    by (simp add: ensureMinimum_def Let_def createResource_pow_host)
  have a: "acquire priority now p = acquire_checked priority now (start p)
       \<and> start p = ensureMinimum (scheduleEvictorRun (p\<lparr> started := True \<rparr>))
       \<and> started (start p)
       \<and> started (snd (acquire priority now p))"
    if h: "\<not> started p \<and> \<not> autostart (config p) \<and> \<not> draining p"
  proof -
    have s1: "started (start p)"
      using h by (simp add: st em_started scheduleEvictorRun_def Let_def)
    have s2: "acquire priority now p = acquire_checked priority now (start p)"
      using h by (simp add: acquire_def)
    from s1 s2 st h show ?thesis by simp
  qed
  have b: "scheduledEviction (start p) = Some (next_handle (host_timers p))
            \<and> armed (host_timers (start p))
                = armed (host_timers p)
                  @ [(next_handle (host_timers p), EvictorRun, evictionRunIntervalMillis (config p))]"
    if "\<not> started p \<and> \<not> autostart (config p) \<and> \<not> draining p"
      "0 < evictionRunIntervalMillis (config p)"
    using that by (simp add: st em_host scheduleEvictorRun_def Let_def js_setTimeout_def)
  have c: "scheduledEviction (start p) = scheduledEviction p \<and> host_timers (start p) = host_timers p"
    if "\<not> started p \<and> \<not> autostart (config p) \<and> \<not> draining p"
      "evictionRunIntervalMillis (config p) \<le> 0"
    using that by (simp add: st em_host scheduleEvictorRun_def Let_def)
  have d: "length (factoryCreateOperations (start p))
           = length (factoryCreateOperations p) + nat (min_opt (config p) - count p)"
    if "\<not> started p \<and> \<not> autostart (config p) \<and> \<not> draining p"
    using that
    by (simp add: st ensureMinimum_creates scheduleEvictorRun_def Let_def count_def)
  have e: "start p = p
       \<and> acquire priority now p
           = (Rejects (Error ''pool is draining and cannot accept work''), p)"
    if "\<not> started p \<and> \<not> autostart (config p) \<and> draining p"
    using that by (simp add: start_def acquire_def acquire_checked_def)
  from a b c d e show ?thesis by blast
qed

lemma pool_manual_fields:
  "\<not> started pool_manual" "\<not> draining pool_manual" "\<not> autostart (config pool_manual)"
  "evictionRunIntervalMillis (config pool_manual) = 1000"
  "min_opt (config pool_manual) = 1" "max_opt (config pool_manual) = 1"
  "factoryCreateOperations pool_manual = []" "allObjects pool_manual = []"
  "scheduledEviction pool_manual = None"
  "host_timers pool_manual = \<lparr> next_handle = 1, armed = [] \<rparr>"
  by (simp_all add: pool_manual_def opts_manual_def createPool_def new_Pool_def
      new_PoolOptions_def no_options_def or_default_def Let_def)

lemma pool_manual_drained_fields:
  "\<not> started pool_manual_drained" "draining pool_manual_drained"
  "\<not> autostart (config pool_manual_drained)"
  "evictionRunIntervalMillis (config pool_manual_drained) = 1000"
  "min_opt (config pool_manual_drained) = 1"
  "factoryCreateOperations pool_manual_drained = []"
  "scheduledEviction pool_manual_drained = None"
  "armed (host_timers pool_manual_drained) = []"
  by (simp_all add: pool_manual_drained_def drain_def descheduleEvictorRun_def pool_manual_fields)

text \<open>
  Claim C10, as stated, fails on a pool that was created with \<open>autostart = false\<close>,
  \<open>min = 1\<close> and an eviction interval, and then drained before any start: \<open>acquire\<close>
  leaves it not started, arms no timer and creates nothing, because \<open>start\<close> returns
  at once on a draining pool.
\<close>

theorem C10_draining_not_started_counterexample:
  "\<not> started pool_manual_drained \<and> \<not> autostart (config pool_manual_drained)
   \<and> evictionRunIntervalMillis (config pool_manual_drained) = 1000
   \<and> min_opt (config pool_manual_drained) = 1
   \<and> acquire None 5 pool_manual_drained
       = (Rejects (Error ''pool is draining and cannot accept work''), pool_manual_drained)
   \<and> \<not> started (snd (acquire None 5 pool_manual_drained))
   \<and> scheduledEviction (snd (acquire None 5 pool_manual_drained)) = None
   \<and> factoryCreateOperations (snd (acquire None 5 pool_manual_drained)) = []"
  by (simp add: acquire_def acquire_checked_def start_def pool_manual_drained_fields)

theorem C10_acquire_starts_amended_witness:
  "\<not> started pool_manual \<and> \<not> autostart (config pool_manual) \<and> \<not> draining pool_manual
   \<and> started (snd (acquire None 5 pool_manual))
   \<and> scheduledEviction (start pool_manual) = Some 1
   \<and> armed (host_timers (start pool_manual)) = [(1, EvictorRun, 1000)]
   \<and> length (factoryCreateOperations (start pool_manual)) = 1
   \<and> acquire None 5 pool_manual = acquire_checked None 5 (start pool_manual)
   \<and> acquire None 5 pool_manual_drained
       = (Rejects (Error ''pool is draining and cannot accept work''), pool_manual_drained)"
proof -
  have h1: "\<not> started pool_manual \<and> \<not> autostart (config pool_manual) \<and> \<not> draining pool_manual"
    by (simp add: pool_manual_fields)
  have h2: "\<not> started pool_manual_drained \<and> \<not> autostart (config pool_manual_drained)
      \<and> draining pool_manual_drained"
    by (simp add: pool_manual_drained_fields)
  have h3: "0 < evictionRunIntervalMillis (config pool_manual)"
    by (simp add: pool_manual_fields)
  note T1 = C10_acquire_starts_amended [of pool_manual None 5]
  note T2 = C10_acquire_starts_amended [of pool_manual_drained None 5]
  from T1 h1 have a: "acquire None 5 pool_manual = acquire_checked None 5 (start pool_manual)"
    and b: "started (snd (acquire None 5 pool_manual))"
    and c: "length (factoryCreateOperations (start pool_manual))
           = length (factoryCreateOperations pool_manual)
             + nat (min_opt (config pool_manual) - count pool_manual)"
    by blast+
  from T1 h1 h3 have d: "scheduledEviction (start pool_manual) = Some (next_handle (host_timers pool_manual))"
    and e: "armed (host_timers (start pool_manual))
                = armed (host_timers pool_manual)
                  @ [(next_handle (host_timers pool_manual), EvictorRun,
                      evictionRunIntervalMillis (config pool_manual))]"
    by blast+
  from T2 h2 have f: "acquire None 5 pool_manual_drained
       = (Rejects (Error ''pool is draining and cannot accept work''), pool_manual_drained)"
    by blast
  from c have c': "length (factoryCreateOperations (start pool_manual)) = 1"
    by (simp add: pool_manual_fields count_def)
  from d have d': "scheduledEviction (start pool_manual) = Some 1"
    by (simp add: pool_manual_fields)
  from e have e': "armed (host_timers (start pool_manual)) = [(1, EvictorRun, 1000)]"
    by (simp add: pool_manual_fields)
  from h1 a b c' d' e' f show ?thesis by blast
qed

section \<open>Properties of the doubly-linked list and its cursor\<close>

lemma list3_eval:
  "head list3 = Some 1" "tail list3 = Some 3" "dll_length list3 = 3"
  "nodes list3 1 = Some \<lparr> node_prev = None, node_next = Some 2, node_data = ''a'' \<rparr>"
  "nodes list3 2 = Some \<lparr> node_prev = Some 1, node_next = Some 3, node_data = ''b'' \<rparr>"
  "nodes list3 3 = Some \<lparr> node_prev = Some 2, node_next = None, node_data = ''c'' \<rparr>"
  by (simp_all add: list3_def insertEnd_def insertBeginning_def createNode_def insertAfter_def
      new_DoublyLinkedList_def Let_def set_prev_def set_next_def next_of_def prev_of_def)

lemma list3_wf: "dll_wf list3 [1, 2, 3]"
  using list3_eval by (simp add: dll_wf_def)

lemma linked_seg: "linked d p xs = seg d p xs None"
  by (induction xs arbitrary: p) simp_all

lemma seg_frame:
  "(\<And>x. x \<in> set xs \<Longrightarrow> nodes d' x = nodes d x) \<Longrightarrow> seg d' p xs q = seg d p xs q"
  by (induction xs arbitrary: p) simp_all

lemma seg_Cons:
  "seg d p (x # xs) q =
     (nodes d x \<noteq> None \<and> prev_of d x = p \<and> next_of d x = hd_or xs q \<and> seg d (Some x) xs q)"
  by (simp add: prev_of_def next_of_def hd_or_def split: option.splits)

lemma seg_append:
  "seg d p (as @ bs) q = (seg d p as (hd_or bs q) \<and> seg d (last_or as p) bs q)"
proof (induction as arbitrary: p)
  case Nil
  then show ?case by (simp add: last_or_def)
next
  case (Cons a as)
  show ?case
  proof (cases as)
    case Nil
    then show ?thesis
      by (auto simp: seg_Cons last_or_def hd_or_def simp del: seg.simps(2))
  next
    case (Cons a' as')
    with Cons.IH [of "Some a"] show ?thesis
      by (auto simp: seg_Cons last_or_def hd_or_def simp del: seg.simps(2))
  qed
qed

lemma successor_split: "n \<notin> set as \<Longrightarrow> successor n (as @ n # bs) = hd_or bs None"
proof (induction as)
  case Nil
  then show ?case by (cases bs) (simp_all add: hd_or_def)
next
  case (Cons a as)
  then show ?case by (cases as) auto
qed

lemma remove_clears:
  "next_of (remove m d) m = None" "prev_of (remove m d) m = None"
  by (auto simp: remove_def Let_def next_of_def prev_of_def set_next_def set_prev_def
      split: option.splits)

lemma remove_nodes:
  assumes "prev_of d m = pm" "next_of d m = nm" "pm \<noteq> Some m" "nm \<noteq> Some m"
    and "pm = None \<or> pm \<noteq> nm"
  shows "nodes (remove m d) x =
     (if x = m then map_option (\<lambda>n. n\<lparr> node_prev := None, node_next := None \<rparr>) (nodes d m)
      else if Some x = pm then map_option (\<lambda>n. n\<lparr> node_next := nm \<rparr>) (nodes d x)
      else if Some x = nm then map_option (\<lambda>n. n\<lparr> node_prev := pm \<rparr>) (nodes d x)
      else nodes d x)"
  using assms
  by (auto simp: remove_def Let_def next_of_def prev_of_def set_next_def set_prev_def
      split: option.splits)

lemma remove_ends:
  assumes "prev_of d m = pm" "next_of d m = nm" "pm \<noteq> Some m"
  shows "head (remove m d) = (if pm = None then nm else head d)"
    "tail (remove m d) = (if nm = None then pm else tail d)"
    "dll_length (remove m d) = dll_length d - 1"
  using assms
  by (auto simp: remove_def Let_def next_of_def prev_of_def set_next_def set_prev_def
      split: option.splits)


lemma seg_relink_last:
  assumes "seg d p as q" and "as \<noteq> []" and "distinct as"
    and "\<And>x. x \<in> set (butlast as) \<Longrightarrow> nodes d' x = nodes d x"
    and "nodes d' (last as) = map_option (\<lambda>n. n\<lparr> node_next := q' \<rparr>) (nodes d (last as))"
  shows "seg d' p as q'"
proof -
  from assms(2) have split: "as = butlast as @ [last as]" by simp
  from assms(1) have "seg d p (butlast as @ [last as]) q" using split by simp
  then have a: "seg d p (butlast as) (Some (last as))"
    and b: "seg d (last_or (butlast as) p) [last as] q"
    by (simp_all add: seg_append hd_or_def)
  from a have a': "seg d' p (butlast as) (Some (last as))"
    using assms(4) by (simp add: seg_frame [of "butlast as" d' d])
  from b have b': "seg d' (last_or (butlast as) p) [last as] q'"
    using assms(5) by (auto simp: seg_Cons hd_or_def prev_of_def next_of_def
        simp del: seg.simps(2) split: option.splits)
  from a' b' have "seg d' p (butlast as @ [last as]) q'"
    by (simp add: seg_append hd_or_def)
  then show ?thesis using split by simp
qed

lemma seg_relink_first:
  assumes "seg d p (b # bs) q" and "b \<notin> set bs"
    and "\<And>x. x \<in> set bs \<Longrightarrow> nodes d' x = nodes d x"
    and "nodes d' b = map_option (\<lambda>n. n\<lparr> node_prev := p' \<rparr>) (nodes d b)"
  shows "seg d' p' (b # bs) q"
proof -
  from assms(1) have a: "seg d (Some b) bs q" by simp
  then have "seg d' (Some b) bs q"
    using assms(3) by (simp add: seg_frame [of bs d' d])
  moreover from assms(1) assms(4)
  have "nodes d' b \<noteq> None \<and> prev_of d' b = p' \<and> next_of d' b = hd_or bs q"
    by (auto simp: seg_Cons prev_of_def next_of_def simp del: seg.simps(2) split: option.splits)
  ultimately show ?thesis
    by (simp add: seg_Cons del: seg.simps(2))
qed

lemma wf_split:
  assumes "dll_wf d (as @ m # bs)"
  shows "nodes d m \<noteq> None" "prev_of d m = last_or as None" "next_of d m = hd_or bs None"
    "seg d None as (Some m)" "seg d (Some m) bs None"
    "m \<notin> set as" "m \<notin> set bs" "distinct as" "distinct bs" "set as \<inter> set bs = {}"
proof -
  from assms have c: "seg d None (as @ m # bs) None" and dist: "distinct (as @ m # bs)"
    by (simp_all add: dll_wf_def linked_seg)
  from c have "seg d None as (Some m)" and r: "seg d (last_or as None) (m # bs) None"
    by (simp_all add: seg_append hd_or_def)
  then show "seg d None as (Some m)" by simp
  from r show "nodes d m \<noteq> None" "prev_of d m = last_or as None" "next_of d m = hd_or bs None"
    "seg d (Some m) bs None"
    by (simp_all add: seg_Cons del: seg.simps(2))
  from dist show "m \<notin> set as" "m \<notin> set bs" "distinct as" "distinct bs" "set as \<inter> set bs = {}"
    by auto
qed

lemma remove_wf_split:
  assumes wf: "dll_wf d (as @ m # bs)"
  shows "dll_wf (remove m d) (as @ bs)"
proof -
  note s = wf_split [OF wf]
  define pm where "pm = last_or as None"
  define nm where "nm = hd_or bs None"
  have pm_m: "pm \<noteq> Some m"
    using s(6) by (auto simp: pm_def last_or_def)
  have nm_m: "nm \<noteq> Some m"
    using s(7) by (auto simp: nm_def hd_or_def split: list.splits)
  have dj: "as \<noteq> [] \<Longrightarrow> last as \<notin> set bs"
    using s(10) last_in_set [of as] by blast
  have pn: "pm = None \<or> pm \<noteq> nm"
    using dj by (auto simp: pm_def nm_def last_or_def hd_or_def split: list.splits if_splits)
  note nd = remove_nodes [OF s(2) [folded pm_def] s(3) [folded nm_def] pm_m nm_m pn]
  note ends = remove_ends [OF s(2) [folded pm_def] s(3) [folded nm_def] pm_m]
  have left: "seg (remove m d) None as nm"
  proof (cases "as = []")
    case True
    then show ?thesis by simp
  next
    case False
    have l: "pm = Some (last as)" using False by (simp add: pm_def last_or_def)
    have notnm: "\<And>x. x \<in> set as \<Longrightarrow> Some x \<noteq> nm"
      using s(10) by (auto simp: nm_def hd_or_def split: list.splits)
    have fr: "\<And>x. x \<in> set (butlast as) \<Longrightarrow> nodes (remove m d) x = nodes d x"
    proof -
      fix x assume x: "x \<in> set (butlast as)"
      then have xa: "x \<in> set as" by (rule in_set_butlastD)
      from x s(8) False have "x \<noteq> last as"
        by (metis append_butlast_last_id distinct_append disjoint_iff list.set_intros(1))
      with xa s(6) notnm [OF xa] show "nodes (remove m d) x = nodes d x"
        by (auto simp: nd l)
    qed
    have la: "nodes (remove m d) (last as) = map_option (\<lambda>n. n\<lparr> node_next := nm \<rparr>) (nodes d (last as))"
      using False s(6) by (auto simp: nd l)
    from seg_relink_last [OF s(4) False s(8) fr la] show ?thesis .
  qed
  have right: "seg (remove m d) pm bs None"
  proof (cases bs)
    case Nil
    then show ?thesis by simp
  next
    case (Cons b bs')
    have n: "nm = Some b" using Cons by (simp add: nm_def hd_or_def)
    have notpm: "\<And>x. x \<in> set bs \<Longrightarrow> Some x \<noteq> pm"
      using dj by (auto simp: pm_def last_or_def split: if_splits)
    have bb: "b \<notin> set bs'" using s(9) Cons by simp
    have fr: "\<And>x. x \<in> set bs' \<Longrightarrow> nodes (remove m d) x = nodes d x"
    proof -
      fix x assume x: "x \<in> set bs'"
      then have xb: "x \<in> set bs" using Cons by simp
      from x bb have "x \<noteq> b" by auto
      with xb s(7) notpm [OF xb] show "nodes (remove m d) x = nodes d x"
        by (auto simp: nd n)
    qed
    have fb: "nodes (remove m d) b = map_option (\<lambda>n. n\<lparr> node_prev := pm \<rparr>) (nodes d b)"
      using s(7) Cons notpm [of b] by (auto simp: nd n)
    from s(5) have "seg d (Some m) (b # bs') None" using Cons by simp
    from seg_relink_first [OF this bb fr fb] show ?thesis using Cons by simp
  qed
  have ch: "linked (remove m d) None (as @ bs)"
    using left right by (simp add: linked_seg seg_append nm_def pm_def)
  from wf have hd0: "head d = (case as @ m # bs of [] \<Rightarrow> None | x # ys \<Rightarrow> Some x)"
    and tl0: "tail d = Some (last (m # bs))"
    and len: "dll_length d = int (length (as @ m # bs))"
    by (simp_all add: dll_wf_def)
  have h: "head (remove m d) = (case as @ bs of [] \<Rightarrow> None | x # ys \<Rightarrow> Some x)"
  proof (cases as)
    case Nil
    then show ?thesis by (simp add: ends pm_def nm_def last_or_def hd_or_def)
  next
    case (Cons a as')
    with hd0 show ?thesis by (simp add: ends pm_def last_or_def)
  qed
  have t: "tail (remove m d) = (if as @ bs = [] then None else Some (last (as @ bs)))"
  proof (cases bs)
    case Nil
    then show ?thesis by (simp add: ends pm_def nm_def last_or_def hd_or_def)
  next
    case (Cons b bs')
    with tl0 show ?thesis by (simp add: ends nm_def hd_or_def)
  qed
  have l: "dll_length (remove m d) = int (length (as @ bs))"
    using len by (simp add: ends)
  from s(8) s(9) s(10) have "distinct (as @ bs)" by simp
  with ch h t l show ?thesis by (simp add: dll_wf_def)
qed

lemma remove_wf:
  assumes "dll_wf d xs" and "m \<in> set xs"
  shows "dll_wf (remove m d) (remove1 m xs)"
proof -
  from assms(2) obtain as bs where x: "xs = as @ m # bs" and na: "m \<notin> set as"
    by (meson split_list_first)
  then have "remove1 m xs = as @ bs"
    by (simp add: remove1_append)
  with remove_wf_split [of d as m bs] assms(1) x show ?thesis by simp
qed


lemma next_on_wf:
  assumes wf: "dll_wf d xs" and n: "n \<in> set xs"
    and it: "cursor it = Some n" "it_started it" "\<not> it_done it" "\<not> reverse it"
  shows "iterator_next it d =
     (case successor n xs of
        None \<Rightarrow> (None, it\<lparr> cursor := None, it_done := True \<rparr>)
      | Some b \<Rightarrow> (Some b, it\<lparr> cursor := Some b \<rparr>))"
proof -
  from n obtain as bs where x: "xs = as @ n # bs" and na: "n \<notin> set as"
    by (meson split_list_first)
  note s = wf_split [OF wf [unfolded x]]
  have sc: "successor n xs = hd_or bs None"
    using x na by (simp add: successor_split)
  have adv: "advanceCursor it d = it\<lparr> cursor := hd_or bs None \<rparr>"
    using it s(3) by (simp add: advanceCursor_def)
  show ?thesis
  proof (cases bs)
    case Nil
    then show ?thesis
      using it adv by (simp add: iterator_next_def sc hd_or_def)
  next
    case (Cons b bs')
    from s(5) Cons have pb: "prev_of d b = Some n"
      by (simp add: seg_Cons del: seg.simps(2))
    from wf x have "dll_length d \<noteq> 0" by (simp add: dll_wf_def)
    with pb have "\<not> isCursorDetached (it\<lparr> cursor := Some b \<rparr>) d"
      by (simp add: isCursorDetached_def)
    then show ?thesis
      using it adv Cons by (simp add: iterator_next_def sc hd_or_def)
  qed
qed

text \<open>
  Claim C9, amended. A cursor that has been started, is not done and points at a node:
  if that very node is removed from the list, the next call of \<open>next()\<close> ends the
  iteration (it reports \<open>done\<close> and sets the done flag, whatever the list still
  holds), and every later call reports \<open>done\<close> as well; only after \<open>reset()\<close> does
  \<open>next()\<close> deliver the head of the list again. If instead another node of a
  well-formed list is removed, the list stays well-formed and the next call of
  \<open>next()\<close> on a forward cursor delivers the node that follows the cursor's node in
  the remaining list (or reports \<open>done\<close> when none follows).
\<close>

theorem C9_cursor_amended:
  "(it_started it \<and> \<not> it_done it \<and> cursor it = Some n \<longrightarrow>
      iterator_next it (remove n d) = (None, it\<lparr> cursor := None, it_done := True \<rparr>)
      \<and> iterator_next (it\<lparr> cursor := None, it_done := True \<rparr>) d'
          = (None, it\<lparr> cursor := None, it_done := True \<rparr>)
      \<and> (\<not> reverse it \<and> head d' = Some h \<and> dll_length d' \<noteq> 0 \<longrightarrow>
            iterator_next (reset (it\<lparr> cursor := None, it_done := True \<rparr>)) d'
              = (Some h, it\<lparr> cursor := Some h, it_done := False \<rparr>)))
   \<and> (dll_wf d xs \<and> n \<in> set xs \<and> m \<in> set xs \<and> m \<noteq> n
        \<and> it_started it \<and> \<not> it_done it \<and> \<not> reverse it \<and> cursor it = Some n \<longrightarrow>
      dll_wf (remove m d) (remove1 m xs)
      \<and> iterator_next it (remove m d)
          = (case successor n (remove1 m xs) of
               None \<Rightarrow> (None, it\<lparr> cursor := None, it_done := True \<rparr>)
             | Some b \<Rightarrow> (Some b, it\<lparr> cursor := Some b \<rparr>)))"
proof (intro conjI impI)
  assume a: "it_started it \<and> \<not> it_done it \<and> cursor it = Some n"
  have "advanceCursor it (remove n d) = it\<lparr> cursor := None \<rparr>"
    using a by (simp add: advanceCursor_def remove_clears)
  then show "iterator_next it (remove n d) = (None, it\<lparr> cursor := None, it_done := True \<rparr>)"
    using a by (simp add: iterator_next_def)
  show "iterator_next (it\<lparr> cursor := None, it_done := True \<rparr>) d'
          = (None, it\<lparr> cursor := None, it_done := True \<rparr>)"
    by (simp add: iterator_next_def)
  assume b: "\<not> reverse it \<and> head d' = Some h \<and> dll_length d' \<noteq> 0"
  then show "iterator_next (reset (it\<lparr> cursor := None, it_done := True \<rparr>)) d'
              = (Some h, it\<lparr> cursor := Some h, it_done := False \<rparr>)"
    using a
    by (simp add: iterator_next_def reset_def advanceCursor_def isCursorDetached_def)
next
  assume c: "dll_wf d xs \<and> n \<in> set xs \<and> m \<in> set xs \<and> m \<noteq> n
        \<and> it_started it \<and> \<not> it_done it \<and> \<not> reverse it \<and> cursor it = Some n"
  then show wf': "dll_wf (remove m d) (remove1 m xs)"
    by (simp add: remove_wf)
  from c have "n \<in> set (remove1 m xs)" by simp
  from next_on_wf [OF wf' this] c
  show "iterator_next it (remove m d)
          = (case successor n (remove1 m xs) of
               None \<Rightarrow> (None, it\<lparr> cursor := None, it_done := True \<rparr>)
             | Some b \<Rightarrow> (Some b, it\<lparr> cursor := Some b \<rparr>))"
    by simp
qed

lemma cursor_at_1_eval:
  "iterator_next (new_DoublyLinkedListIterator False) list3
     = (Some 1, \<lparr> reverse = False, it_started = True, cursor = Some 1, it_done = False \<rparr>)"
  "cursor_at_1 = \<lparr> reverse = False, it_started = True, cursor = Some 1, it_done = False \<rparr>"
  by (simp_all add: cursor_at_1_def iterator_next_def new_DoublyLinkedListIterator_def
      advanceCursor_def isCursorDetached_def list3_eval)

text \<open>
  Claim C9, as stated, fails: in the list of the nodes \<open>1, 2, 3\<close> with the cursor on
  node \<open>1\<close>, removing node \<open>1\<close> leaves the list \<open>2, 3\<close> with head \<open>2\<close>, which is
  also the node that followed the cursor. The next call of \<open>next()\<close> delivers neither:
  \<open>remove\<close> has cleared the links of node \<open>1\<close>, the cursor becomes \<open>null\<close>, and
  the iteration is over.
\<close>

theorem C9_removed_cursor_terminates_counterexample:
  "iterator_next (new_DoublyLinkedListIterator False) list3 = (Some 1, cursor_at_1)
   \<and> head (remove 1 list3) = Some 2
   \<and> next_of list3 1 = Some 2
   \<and> dll_wf (remove 1 list3) [2, 3]
   \<and> fst (iterator_next cursor_at_1 (remove 1 list3)) = None
   \<and> it_done (snd (iterator_next cursor_at_1 (remove 1 list3)))
   \<and> fst (iterator_next (snd (iterator_next cursor_at_1 (remove 1 list3))) (remove 1 list3)) = None"
proof -
  have wf: "dll_wf (remove 1 list3) (remove1 1 [1, 2, 3])"
    by (rule remove_wf [OF list3_wf]) simp
  have hd: "head (remove 1 list3) = Some 2"
    using wf by (simp add: dll_wf_def)
  have nx: "next_of list3 1 = Some 2"
    using list3_eval(4) by (simp add: next_of_def)
  have adv: "advanceCursor cursor_at_1 (remove 1 list3) = cursor_at_1\<lparr> cursor := None \<rparr>"
    by (simp add: advanceCursor_def cursor_at_1_eval remove_clears)
  have r: "iterator_next cursor_at_1 (remove 1 list3)
      = (None, cursor_at_1\<lparr> cursor := None, it_done := True \<rparr>)"
    using adv by (simp add: iterator_next_def cursor_at_1_eval)
  have f1: "iterator_next (new_DoublyLinkedListIterator False) list3 = (Some 1, cursor_at_1)"
    by (simp only: cursor_at_1_eval)
  from wf have wf': "dll_wf (remove 1 list3) [2, 3]" by simp
  from r have r1: "fst (iterator_next cursor_at_1 (remove 1 list3)) = None"
    and r2: "it_done (snd (iterator_next cursor_at_1 (remove 1 list3)))"
    by simp_all
  have r3: "fst (iterator_next (snd (iterator_next cursor_at_1 (remove 1 list3))) (remove 1 list3)) = None"
    unfolding r by (simp add: iterator_next_def)
  from f1 hd nx wf' r1 r2 r3 show ?thesis by blast
qed

theorem C9_cursor_amended_witness:
  "it_started cursor_at_1 \<and> \<not> it_done cursor_at_1 \<and> cursor cursor_at_1 = Some 1
   \<and> iterator_next cursor_at_1 (remove 1 list3)
       = (None, cursor_at_1\<lparr> cursor := None, it_done := True \<rparr>)
   \<and> iterator_next (reset (cursor_at_1\<lparr> cursor := None, it_done := True \<rparr>)) (remove 1 list3)
       = (Some 2, cursor_at_1\<lparr> cursor := Some 2, it_done := False \<rparr>)
   \<and> dll_wf list3 [1, 2, 3]
   \<and> dll_wf (remove 2 list3) [1, 3]
   \<and> iterator_next cursor_at_1 (remove 2 list3) = (Some 3, cursor_at_1\<lparr> cursor := Some 3 \<rparr>)
   \<and> iterator_next cursor_at_1 (remove 3 list3) = (Some 2, cursor_at_1\<lparr> cursor := Some 2 \<rparr>)"
proof -
  have c: "it_started cursor_at_1 \<and> \<not> it_done cursor_at_1 \<and> cursor cursor_at_1 = Some 1"
    "\<not> reverse cursor_at_1"
    by (simp_all add: cursor_at_1_eval)
  have wf1: "dll_wf (remove 1 list3) (remove1 1 [1, 2, 3])"
    by (rule remove_wf [OF list3_wf]) simp
  then have e: "head (remove 1 list3) = Some 2" "dll_length (remove 1 list3) \<noteq> 0"
    by (simp_all add: dll_wf_def)
  note T1 = C9_cursor_amended [of cursor_at_1 1 list3 "remove 1 list3" 2 "[1, 2, 3]" 2]
  note T2 = C9_cursor_amended [of cursor_at_1 1 list3 "remove 1 list3" 2 "[1, 2, 3]" 3]
  from T1 c e have a1: "iterator_next cursor_at_1 (remove 1 list3)
       = (None, cursor_at_1\<lparr> cursor := None, it_done := True \<rparr>)"
    and a2: "iterator_next (reset (cursor_at_1\<lparr> cursor := None, it_done := True \<rparr>)) (remove 1 list3)
       = (Some 2, cursor_at_1\<lparr> cursor := Some 2, it_done := False \<rparr>)"
    by blast+
  have h2: "dll_wf list3 [1, 2, 3] \<and> 1 \<in> set [1, 2, 3::nat] \<and> 2 \<in> set [1, 2, 3::nat] \<and> (2::nat) \<noteq> 1"
    "dll_wf list3 [1, 2, 3] \<and> 1 \<in> set [1, 2, 3::nat] \<and> 3 \<in> set [1, 2, 3::nat] \<and> (3::nat) \<noteq> 1"
    using list3_wf by simp_all
  from T1 h2(1) c have b1: "dll_wf (remove 2 list3) (remove1 2 [1, 2, 3])"
    and b2: "iterator_next cursor_at_1 (remove 2 list3)
          = (case successor 1 (remove1 2 [1, 2, 3]) of
               None \<Rightarrow> (None, cursor_at_1\<lparr> cursor := None, it_done := True \<rparr>)
             | Some b \<Rightarrow> (Some b, cursor_at_1\<lparr> cursor := Some b \<rparr>))"
    by blast+
  from T2 h2(2) c have b3: "iterator_next cursor_at_1 (remove 3 list3)
          = (case successor 1 (remove1 3 [1, 2, 3]) of
               None \<Rightarrow> (None, cursor_at_1\<lparr> cursor := None, it_done := True \<rparr>)
             | Some b \<Rightarrow> (Some b, cursor_at_1\<lparr> cursor := Some b \<rparr>))"
    by blast
  from b1 have b1': "dll_wf (remove 2 list3) [1, 3]" by simp
  from b2 have b2': "iterator_next cursor_at_1 (remove 2 list3) = (Some 3, cursor_at_1\<lparr> cursor := Some 3 \<rparr>)"
    by simp
  from b3 have b3': "iterator_next cursor_at_1 (remove 3 list3) = (Some 2, cursor_at_1\<lparr> cursor := Some 2 \<rparr>)"
    by simp
  from c(1) a1 a2 list3_wf b1' b2' b3' show ?thesis by blast
qed

section \<open>Properties of the deque over the linked list\<close>

text \<open>
  The operations of \<open>Deque\<close> on the nodes agree with the operations on the sequence of
  the data: each keeps the list well formed and has the effect on the data that the
  sequence model of the pool's deques gives it.
\<close>

lemma insertAfter_tail:
  assumes wf: "dll_wf d xs" and ne: "xs \<noteq> []" and k: "k \<notin> set xs"
    and nk: "nodes d k = Some \<lparr> node_prev = None, node_next = None, node_data = v \<rparr>"
  shows "dll_wf (insertAfter (last xs) k d) (xs @ [k])"
    and "nodes (insertAfter (last xs) k d) k
          = Some \<lparr> node_prev = Some (last xs), node_next = None, node_data = v \<rparr>"
    and "\<And>x. x \<noteq> k \<Longrightarrow> x \<noteq> last xs \<Longrightarrow> nodes (insertAfter (last xs) k d) x = nodes d x"
    and "map_option node_data (nodes (insertAfter (last xs) k d) (last xs))
          = map_option node_data (nodes d (last xs))"
    and "fresh (insertAfter (last xs) k d) = fresh d"
proof -
  define t where "t = last xs"
  from ne have sp: "xs = butlast xs @ [t]" by (simp add: t_def)
  from wf have sg: "seg d None xs None" and dist: "distinct xs"
    and tl: "tail d = Some t" and len: "dll_length d = int (length xs)"
    and hd: "head d = (case xs of [] \<Rightarrow> None | x # ys \<Rightarrow> Some x)"
    using ne by (simp_all add: dll_wf_def linked_seg t_def)
  from sg sp have "seg d (last_or (butlast xs) None) [t] None"
    by (metis seg_append)
  then have nt: "next_of d t = None" and at: "nodes d t \<noteq> None"
    by (simp_all add: seg_Cons hd_or_def del: seg.simps(2))
  have tk: "t \<noteq> k" using k ne by (auto simp: t_def)
  define d' where "d' = insertAfter t k d"
  have nodes': "nodes d' = (nodes d)
      (k \<mapsto> \<lparr> node_prev = Some t, node_next = None, node_data = v \<rparr>,
       t := map_option (\<lambda>n. n\<lparr> node_next := Some k \<rparr>) (nodes d t))"
    using nt nk tk at
    by (auto simp: d'_def insertAfter_def Let_def set_prev_def set_next_def next_of_def
        split: option.splits)
  have ends: "head d' = head d" "tail d' = Some k" "dll_length d' = dll_length d + 1"
    "fresh d' = fresh d"
    using nt nk tk at
    by (auto simp: d'_def insertAfter_def Let_def set_prev_def set_next_def next_of_def
        split: option.splits)
  have fr: "\<And>x. x \<in> set (butlast xs) \<Longrightarrow> nodes d' x = nodes d x"
  proof -
    fix x assume x: "x \<in> set (butlast xs)"
    then have "x \<in> set xs" by (rule in_set_butlastD)
    moreover from x dist sp have "x \<noteq> t"
      by (metis distinct_append disjoint_iff list.set_intros(1))
    ultimately show "nodes d' x = nodes d x" using k by (auto simp: nodes')
  qed
  have lt: "nodes d' (last xs) = map_option (\<lambda>n. n\<lparr> node_next := Some k \<rparr>) (nodes d (last xs))"
    by (simp add: nodes' t_def)
  have left: "seg d' None xs (Some k)"
    by (rule seg_relink_last [OF sg ne dist fr lt])
  have right: "seg d' (Some t) [k] None"
    using tk by (simp add: nodes')
  have "seg d' None (xs @ [k]) None"
    using left right ne by (simp add: seg_append hd_or_def last_or_def t_def)
  moreover have "distinct (xs @ [k])" using dist k by simp
  moreover have "head d' = (case xs @ [k] of [] \<Rightarrow> None | x # ys \<Rightarrow> Some x)"
    using hd ne by (cases xs) (simp_all add: ends)
  ultimately show "dll_wf (insertAfter (last xs) k d) (xs @ [k])"
    using ends len by (simp add: dll_wf_def linked_seg d'_def t_def)
  show "nodes (insertAfter (last xs) k d) k
          = Some \<lparr> node_prev = Some (last xs), node_next = None, node_data = v \<rparr>"
    using tk nodes' by (simp add: d'_def t_def)
  show "\<And>x. x \<noteq> k \<Longrightarrow> x \<noteq> last xs \<Longrightarrow> nodes (insertAfter (last xs) k d) x = nodes d x"
    using nodes' by (simp add: d'_def t_def)
  show "map_option node_data (nodes (insertAfter (last xs) k d) (last xs))
          = map_option node_data (nodes d (last xs))"
    using nodes' by (simp add: d'_def t_def option.map_comp comp_def)
  show "fresh (insertAfter (last xs) k d) = fresh d"
    using ends by (simp add: d'_def t_def)
qed


lemma insertBefore_head:
  assumes wf: "dll_wf d (h # xs)" and k: "k \<notin> set (h # xs)"
    and nk: "nodes d k = Some \<lparr> node_prev = None, node_next = None, node_data = v \<rparr>"
  shows "dll_wf (insertBefore h k d) (k # h # xs)"
    and "nodes (insertBefore h k d) k
          = Some \<lparr> node_prev = None, node_next = Some h, node_data = v \<rparr>"
    and "\<And>x. x \<noteq> k \<Longrightarrow> x \<noteq> h \<Longrightarrow> nodes (insertBefore h k d) x = nodes d x"
    and "map_option node_data (nodes (insertBefore h k d) h) = map_option node_data (nodes d h)"
    and "fresh (insertBefore h k d) = fresh d"
proof -
  from wf have sg: "seg d None (h # xs) None" and dist: "distinct (h # xs)"
    and hd: "head d = Some h" and tl: "tail d = Some (last (h # xs))"
    and len: "dll_length d = int (length (h # xs))"
    by (simp_all add: dll_wf_def linked_seg)
  from sg have ph: "prev_of d h = None" and ah: "nodes d h \<noteq> None"
    by (simp_all add: seg_Cons del: seg.simps(2))
  have hk: "h \<noteq> k" using k by auto
  define d' where "d' = insertBefore h k d"
  have nodes': "nodes d' = (nodes d)
      (k \<mapsto> \<lparr> node_prev = None, node_next = Some h, node_data = v \<rparr>,
       h := map_option (\<lambda>n. n\<lparr> node_prev := Some k \<rparr>) (nodes d h))"
    using ph nk hk ah
    by (auto simp: d'_def insertBefore_def Let_def set_prev_def set_next_def prev_of_def
        split: option.splits)
  have ends: "head d' = Some k" "tail d' = tail d" "dll_length d' = dll_length d + 1"
    "fresh d' = fresh d"
    using ph nk hk ah
    by (auto simp: d'_def insertBefore_def Let_def set_prev_def set_next_def prev_of_def
        split: option.splits)
  have fr: "\<And>x. x \<in> set xs \<Longrightarrow> nodes d' x = nodes d x"
    using k dist by (auto simp: nodes')
  have fh: "nodes d' h = map_option (\<lambda>n. n\<lparr> node_prev := Some k \<rparr>) (nodes d h)"
    by (simp add: nodes')
  from dist have hx: "h \<notin> set xs" by simp
  have right: "seg d' (Some k) (h # xs) None"
    by (rule seg_relink_first [OF sg hx fr fh])
  have "seg d' None (k # h # xs) None"
    using right hk by (simp add: seg_Cons nodes' prev_of_def next_of_def hd_or_def
        del: seg.simps(2))
  moreover have "distinct (k # h # xs)" using dist k by simp
  ultimately show "dll_wf (insertBefore h k d) (k # h # xs)"
    using ends len tl by (simp add: dll_wf_def linked_seg d'_def)
  show "nodes (insertBefore h k d) k
          = Some \<lparr> node_prev = None, node_next = Some h, node_data = v \<rparr>"
    using hk nodes' by (simp add: d'_def)
  show "\<And>x. x \<noteq> k \<Longrightarrow> x \<noteq> h \<Longrightarrow> nodes (insertBefore h k d) x = nodes d x"
    using nodes' by (simp add: d'_def)
  show "map_option node_data (nodes (insertBefore h k d) h) = map_option node_data (nodes d h)"
    using nodes' by (simp add: d'_def option.map_comp comp_def)
  show "fresh (insertBefore h k d) = fresh d"
    using ends by (simp add: d'_def)
qed

lemma createNode_frame:
  assumes "dll_wf d xs" and "list_all (\<lambda>x. x < fresh d) xs"
  shows "dll_wf (snd (createNode v d)) xs"
    and "fst (createNode v d) = fresh d"
    and "fresh d \<notin> set xs"
    and "nodes (snd (createNode v d)) (fresh d)
          = Some \<lparr> node_prev = None, node_next = None, node_data = v \<rparr>"
    and "\<And>x. x \<in> set xs \<Longrightarrow> nodes (snd (createNode v d)) x = nodes d x"
    and "fresh (snd (createNode v d)) = Suc (fresh d)"
    and "head (snd (createNode v d)) = head d" "tail (snd (createNode v d)) = tail d"
    and "dll_length (snd (createNode v d)) = dll_length d"
proof -
  from assms(2) show nf: "fresh d \<notin> set xs"
    by (auto simp: list_all_iff)
  then have fr: "\<And>x. x \<in> set xs \<Longrightarrow> nodes (snd (createNode v d)) x = nodes d x"
    by (auto simp: createNode_def)
  then show "\<And>x. x \<in> set xs \<Longrightarrow> nodes (snd (createNode v d)) x = nodes d x" .
  from fr have "seg (snd (createNode v d)) None xs None = seg d None xs None"
    by (rule seg_frame)
  with assms(1) show "dll_wf (snd (createNode v d)) xs"
    by (simp add: dll_wf_def linked_seg createNode_def)
  show "fst (createNode v d) = fresh d"
    "nodes (snd (createNode v d)) (fresh d)
          = Some \<lparr> node_prev = None, node_next = None, node_data = v \<rparr>"
    "fresh (snd (createNode v d)) = Suc (fresh d)"
    "head (snd (createNode v d)) = head d" "tail (snd (createNode v d)) = tail d"
    "dll_length (snd (createNode v d)) = dll_length d"
    by (simp_all add: createNode_def)
qed

lemma contents_cong:
  "(\<And>x. x \<in> set xs \<Longrightarrow> map_option node_data (nodes d' x) = map_option node_data (nodes d x))
   \<Longrightarrow> contents d' xs = contents d xs"
  by (simp add: contents_def)

lemma unshift_refines:
  assumes "deque_repr d xs vs"
  shows "\<exists>k. deque_repr (dll_unshift v d) (k # xs) (Deque_unshift vs v)"
proof -
  from assms have wf: "dll_wf d xs" and fr: "list_all (\<lambda>x. x < fresh d) xs"
    and ct: "contents d xs = map Some vs"
    by (simp_all add: deque_repr_def)
  define d1 where "d1 = snd (createNode v d)"
  define k where "k = fresh d"
  have c: "dll_wf d1 xs" "fst (createNode v d) = k" "k \<notin> set xs"
    "nodes d1 k = Some \<lparr> node_prev = None, node_next = None, node_data = v \<rparr>"
    "\<And>x. x \<in> set xs \<Longrightarrow> nodes d1 x = nodes d x"
    "fresh d1 = Suc (fresh d)" "head d1 = head d" "tail d1 = tail d"
    "dll_length d1 = dll_length d"
    unfolding d1_def k_def using createNode_frame [OF wf fr] by blast+
  have lt: "list_all (\<lambda>x. x < Suc (fresh d)) (k # xs)"
    using fr by (auto simp: list_all_iff k_def)
  show ?thesis
  proof (cases xs)
    case Nil
    with wf have e: "head d = None" by (simp add: dll_wf_def)
    have u: "dll_unshift v d = d1\<lparr> head := Some k, tail := Some k, dll_length := dll_length d1 + 1 \<rparr>"
      using e c(2) c(7) by (simp add: dll_unshift_def insertBeginning_def Let_def d1_def [symmetric])
    have "deque_repr (dll_unshift v d) [k] [v]"
      using c(4) c(6) c(9) wf Nil
      by (simp add: u deque_repr_def dll_wf_def contents_def k_def)
    then show ?thesis using Nil ct by (auto simp: Deque_unshift_def contents_def)
  next
    case (Cons h xs')
    with wf have e: "head d = Some h" by (simp add: dll_wf_def)
    have u: "dll_unshift v d = insertBefore h k d1"
      using e c(2) c(7) by (simp add: dll_unshift_def insertBeginning_def Let_def d1_def [symmetric])
    have wf1: "dll_wf d1 (h # xs')" using c(1) Cons by simp
    have kn: "k \<notin> set (h # xs')" using c(3) Cons by simp
    note i = insertBefore_head [OF wf1 kn c(4)]
    have ct': "contents (insertBefore h k d1) (k # h # xs') = Some v # contents d (h # xs')"
    proof -
      have "contents (insertBefore h k d1) (h # xs') = contents d (h # xs')"
      proof (rule contents_cong)
        fix x assume x: "x \<in> set (h # xs')"
        show "map_option node_data (nodes (insertBefore h k d1) x) = map_option node_data (nodes d x)"
        proof (cases "x = h")
          case True
          then show ?thesis using i(4) c(5) [of h] Cons by simp
        next
          case False
          with x kn have "nodes (insertBefore h k d1) x = nodes d1 x"
            by (intro i(3)) auto
          with c(5) [of x] x Cons show ?thesis by simp
        qed
      qed
      then show ?thesis using i(2) by (simp add: contents_def)
    qed
    have "deque_repr (dll_unshift v d) (k # h # xs') (v # vs)"
      using i(1) i(5) c(6) lt ct ct' Cons
      by (simp add: u deque_repr_def list_all_iff)
    then show ?thesis using Cons by (auto simp: Deque_unshift_def)
  qed
qed


lemma push_refines:
  assumes "deque_repr d xs vs"
  shows "\<exists>k. deque_repr (dll_push v d) (xs @ [k]) (Deque_push vs v)"
proof -
  from assms have wf: "dll_wf d xs" and fr: "list_all (\<lambda>x. x < fresh d) xs"
    and ct: "contents d xs = map Some vs"
    by (simp_all add: deque_repr_def)
  define d1 where "d1 = snd (createNode v d)"
  define k where "k = fresh d"
  have c: "dll_wf d1 xs" "fst (createNode v d) = k" "k \<notin> set xs"
    "nodes d1 k = Some \<lparr> node_prev = None, node_next = None, node_data = v \<rparr>"
    "\<And>x. x \<in> set xs \<Longrightarrow> nodes d1 x = nodes d x"
    "fresh d1 = Suc (fresh d)" "head d1 = head d" "tail d1 = tail d"
    "dll_length d1 = dll_length d"
    unfolding d1_def k_def using createNode_frame [OF wf fr] by blast+
  show ?thesis
  proof (cases "xs = []")
    case True
    with wf have e: "tail d = None" "head d = None" "dll_length d = 0"
      by (simp_all add: dll_wf_def)
    have "deque_repr (dll_push v d) [Suc k] [v]"
      using e
      by (simp add: dll_push_def insertEnd_def insertBeginning_def Let_def createNode_def
          k_def deque_repr_def dll_wf_def contents_def)
    then show ?thesis using True ct by (auto simp: Deque_push_def contents_def)
  next
    case False
    with wf have e: "tail d = Some (last xs)" by (simp add: dll_wf_def)
    have u: "dll_push v d = insertAfter (last xs) k d1"
      using e c(2) c(8) by (simp add: dll_push_def insertEnd_def Let_def d1_def [symmetric])
    note i = insertAfter_tail [OF c(1) False c(3) c(4)]
    have ct': "contents (insertAfter (last xs) k d1) (xs @ [k]) = contents d xs @ [Some v]"
    proof -
      have "contents (insertAfter (last xs) k d1) xs = contents d xs"
      proof (rule contents_cong)
        fix x assume x: "x \<in> set xs"
        show "map_option node_data (nodes (insertAfter (last xs) k d1) x)
              = map_option node_data (nodes d x)"
        proof (cases "x = last xs")
          case True
          then show ?thesis using i(4) c(5) [of "last xs"] False by simp
        next
          case False
          with x c(3) have "nodes (insertAfter (last xs) k d1) x = nodes d1 x"
            by (intro i(3)) auto
          with c(5) [OF x] show ?thesis by simp
        qed
      qed
      then show ?thesis using i(2) by (simp add: contents_def)
    qed
    have lt: "list_all (\<lambda>x. x < Suc (fresh d)) (xs @ [k])"
      using fr by (auto simp: list_all_iff k_def)
    have "deque_repr (dll_push v d) (xs @ [k]) (vs @ [v])"
      using i(1) i(5) c(6) lt ct ct'
      by (simp add: u deque_repr_def)
    then show ?thesis by (auto simp: Deque_push_def)
  qed
qed

lemma remove_keeps_data:
  "map_option node_data (nodes (remove m d) x) = map_option node_data (nodes d x)"
  "fresh (remove m d) = fresh d"
  by (auto simp: remove_def Let_def set_next_def set_prev_def option.map_comp comp_def
      split: option.splits)

lemma shift_refines:
  assumes "deque_repr d xs vs"
  shows "\<exists>d'. dll_shift d = Inr (fst (Deque_shift vs), d')
              \<and> deque_repr d' (tl xs) (snd (Deque_shift vs))"
proof (cases xs)
  case Nil
  with assms show ?thesis
    by (simp add: dll_shift_def Deque_shift_def deque_repr_def dll_wf_def contents_def)
next
  case (Cons h xs')
  from assms have wf: "dll_wf d xs" and fr: "list_all (\<lambda>x. x < fresh d) xs"
    and ct: "contents d xs = map Some vs"
    by (simp_all add: deque_repr_def)
  from ct Cons obtain w ws where vs: "vs = w # ws" by (cases vs) (auto simp: contents_def)
  from wf Cons have e: "head d = Some h" "dll_length d \<noteq> 0" by (simp_all add: dll_wf_def)
  have wf': "dll_wf (remove h d) xs'"
    using remove_wf [OF wf, of h] Cons by simp
  have "contents (remove h d) xs' = contents d xs'"
    by (rule contents_cong) (simp add: remove_keeps_data)
  with ct Cons vs have c': "contents (remove h d) xs' = map Some ws"
    by (simp add: contents_def)
  from ct Cons vs have dh: "map_option node_data (nodes d h) = Some w"
    by (simp add: contents_def)
  from wf' fr Cons c' dh show ?thesis
    by (simp add: dll_shift_def e deque_repr_def remove_keeps_data vs Deque_shift_def Let_def)
qed

lemma pop_refines:
  assumes "deque_repr d xs vs"
  shows "\<exists>d'. dll_pop d = Inr (fst (Deque_pop vs), d')
              \<and> deque_repr d' (butlast xs) (snd (Deque_pop vs))"
proof (cases "xs = []")
  case True
  with assms show ?thesis
    by (simp add: dll_pop_def Deque_pop_def deque_repr_def dll_wf_def contents_def)
next
  case False
  from assms have wf: "dll_wf d xs" and fr: "list_all (\<lambda>x. x < fresh d) xs"
    and ct: "contents d xs = map Some vs"
    by (simp_all add: deque_repr_def)
  define t where "t = last xs"
  from False have sp: "xs = butlast xs @ [t]" by (simp add: t_def)
  from ct have ln: "length vs = length xs"
    by (metis contents_def length_map)
  with False have ne: "vs \<noteq> []" by auto
  then have spv: "vs = butlast vs @ [last vs]" by simp
  from wf False have e: "tail d = Some t" "dll_length d \<noteq> 0"
    by (simp_all add: dll_wf_def t_def)
  have wf': "dll_wf (remove t d) (butlast xs)"
    using remove_wf_split [of d "butlast xs" t "[]"] wf sp by simp
  have cb: "contents (remove t d) (butlast xs) = contents d (butlast xs)"
    by (rule contents_cong) (simp add: remove_keeps_data)
  have "contents d (butlast xs) @ [map_option node_data (nodes d t)]
        = map Some (butlast vs) @ [Some (last vs)]"
    using ct sp spv by (metis (no_types, lifting) contents_def list.simps(8,9) map_append)
  then have c': "contents d (butlast xs) = map Some (butlast vs)"
    and dt: "map_option node_data (nodes d t) = Some (last vs)"
    by simp_all
  have fr': "list_all (\<lambda>x. x < fresh d) (butlast xs)"
    using fr by (metis (no_types, lifting) in_set_butlastD list_all_iff)
  from wf' fr' cb c' dt ne show ?thesis
    by (simp add: dll_pop_def e deque_repr_def remove_keeps_data Deque_pop_def Let_def)
qed

lemma length_refines: "deque_repr d xs vs \<Longrightarrow> dll_length d = int (length vs)"
  by (metis contents_def deque_repr_def dll_wf_def length_map)

lemma new_list_repr: "deque_repr new_DoublyLinkedList [] []"
  by (simp add: deque_repr_def dll_wf_def new_DoublyLinkedList_def contents_def)

end
